theory Spec2Isabelle
  imports Complex_Main "HOL-Library.Word"
begin

section \<open>Hyperstack cloud provider: node groups, refresh, scale operations, retry\<close>

text \<open>
  A shallow embedding of the Hyperstack provider of the cluster autoscaler:
  \<^item> Go's \<open>int\<close> and \<open>time.Duration\<close> are 64-bit two's complement words; \<open>+\<close> and \<open>-\<close>
    wrap and the comparisons are the signed ones (\<open>\<le>s\<close>, \<open><s\<close>);
  \<^item> a Go pointer is an \<open>option\<close>; dereferencing \<open>None\<close> is the run-time panic
    \<open>NilDereference\<close>;
  \<^item> a function that returns \<open>(value, error)\<close> returns \<open>error + value\<close>, one that returns
    \<open>error\<close> returns \<open>error option\<close> (\<open>None\<close> is Go's \<open>nil\<close>), and both are wrapped in
    \<open>outcome\<close>, whose second constructor is a panic that unwinds the caller;
  \<^item> every call that leaves the process (Hyperstack API, Kubernetes API, metadata
    endpoint) is answered by the environment \<open>env\<close>; the answer may depend on the list of
    calls made so far, and each call is appended to that list.
\<close>

type_synonym go_int = "64 word"

subsection \<open>Errors, panics, outcomes\<close>

datatype error =
    External string
  | ErrSyntax string
  | ErrRange string
  | FailedInClusterConfig error
  | FailedCreateKubernetesClient error
  | FailedGetMetadata error
  | FailedGetNode string error
  | LabelNotFound string string
  | FailedDeleteNode string error
  | ClusterIsReconciling
  | SizeIncreaseTooLarge go_int go_int go_int
  | NodeWithoutNodeIDLabel string
  | MaxRetriesExceeded "error option"
  | TimeParseError string

datatype panic =
    NilDereference
  | FailedToGETMetadata error
  | FailedToReadBody error
  | FailedToUnmarshalJSON error

datatype 'a outcome = Returned 'a | Panicked panic

subsection \<open>Records of the Hyperstack API and of Kubernetes\<close>

record ClusterNodeGroupFields =
  Id :: "go_int option"
  Name :: "string option"
  Role :: "string option"
  MinCount :: "go_int option"
  MaxCount :: "go_int option"
  Count :: "go_int option"

record ClusterFields =
  IsReconciling :: "bool option"
  Status :: "string option"

record ClusterNodeFields =
  NodeId :: "go_int option"

record Node =
  NodeName :: string
  Labels :: "string \<rightharpoonup> string"

record Meta =
  Cluster :: string
  MetaRole :: string
  InfrahubKey :: string

record Key =
  KeyName :: string
  KeyType :: string
  KeyData :: string

text \<open>The two fields of type \<open>[]any\<close> (devices, dedicated_cpus) are read by nothing and left out.\<close>

record Payload =
  UUID :: string
  PayloadMeta :: Meta
  PublicKeys :: "string \<rightharpoonup> string"
  Keys :: "Key list"
  Hostname :: string
  PayloadName :: string
  LaunchIndex :: go_int
  AZ :: string
  RandomSeed :: string
  ProjectID :: string

subsection \<open>The environment\<close>

datatype call =
    CallInClusterConfig
  | CallNewForConfig
  | CallHttpGetMetadata
  | CallReadBody
  | CallNodesGet string
  | CallNodesDelete string
  | CallListNodeGroups go_int
  | CallGetCluster go_int
  | CallGetClusterNodes go_int
  | CallCreateNode go_int go_int "string option"
  | CallDeleteClusterNodes go_int "go_int list"

record env =
  inClusterConfig :: "call list \<Rightarrow> error option"
  newForConfig :: "call list \<Rightarrow> error option"
  httpGetMetadata :: "call list \<Rightarrow> error option"
  readBody :: "call list \<Rightarrow> error + string"
  jsonUnmarshal :: "string \<Rightarrow> error + Payload"
  nodesGet :: "call list \<Rightarrow> string \<Rightarrow> error + Node"
  nodesDelete :: "call list \<Rightarrow> string \<Rightarrow> error option"
  ListNodeGroupsWithResponse :: "call list \<Rightarrow> go_int \<Rightarrow> error + ClusterNodeGroupFields list option"
  GetClusterWithResponse :: "call list \<Rightarrow> go_int \<Rightarrow> error + ClusterFields option"
  GetClusterNodesWithResponse :: "call list \<Rightarrow> go_int \<Rightarrow> error + ClusterNodeFields list option"
  CreateNodeWithResponse :: "call list \<Rightarrow> go_int \<Rightarrow> go_int \<Rightarrow> string option \<Rightarrow> error option"
  DeleteClusterNodesWithResponse :: "call list \<Rightarrow> go_int \<Rightarrow> go_int list \<Rightarrow> error option"

subsection \<open>strconv.Atoi\<close>

text \<open>
  Go's \<open>strconv.Atoi\<close> on a 64-bit platform: an optional sign, then one or more ASCII
  digits; the digits are read left to right, a character that is no digit is a syntax
  error, a value that leaves the unsigned 64-bit range while reading, or the signed
  64-bit range at the end, is a range error.
\<close>

definition is_digit :: "char \<Rightarrow> bool" where
  "is_digit c = (48 \<le> (of_char c :: nat) \<and> (of_char c :: nat) \<le> 57)"

definition digit_val :: "char \<Rightarrow> nat" where
  "digit_val c = of_char c - 48"

datatype atoi_fail = Syntax | Range

fun parse_digits :: "nat \<Rightarrow> string \<Rightarrow> atoi_fail + nat" where
  "parse_digits n [] = Inr n"
| "parse_digits n (c # cs) =
     (if \<not> is_digit c then Inl Syntax
      else if 2 ^ 64 \<le> 10 * n + digit_val c then Inl Range
      else parse_digits (10 * n + digit_val c) cs)"

definition Atoi :: "string \<Rightarrow> error + go_int" where
  "Atoi s =
     (case s of
        [] \<Rightarrow> Inl (ErrSyntax s)
      | c # cs \<Rightarrow>
          (let neg = (c = CHR ''-'');
               ds = (if c = CHR ''-'' \<or> c = CHR ''+'' then cs else s)
           in if ds = [] then Inl (ErrSyntax s)
              else (case parse_digits 0 ds of
                      Inl Syntax \<Rightarrow> Inl (ErrSyntax s)
                    | Inl Range \<Rightarrow> Inl (ErrRange s)
                    | Inr v \<Rightarrow>
                        if \<not> neg \<and> 2 ^ 63 \<le> v then Inl (ErrRange s)
                        else if neg \<and> 2 ^ 63 < v then Inl (ErrRange s)
                        else Inr (if neg then - word_of_nat v else word_of_nat v))))"

subsection \<open>Self-identity: metadata and the local node's labels\<close>

definition clusterIdLabel :: string where
  "clusterIdLabel = ''hyperstack.cloud/cluster-id''"

definition nodeIdLabel :: string where
  "nodeIdLabel = ''hyperstack.cloud/node-id''"

definition nodeRoleLabel :: string where
  "nodeRoleLabel = ''node-role.kubernetes.io/worker''"

text \<open>
  \<open>GetMetadata\<close>: GET the metadata URL, read the body, decode it. Each of the three
  failures is a \<open>panic(...)\<close> in the source; the only return is \<open>(payload, nil)\<close>.
\<close>

definition GetMetadata :: "env \<Rightarrow> call list \<Rightarrow> (error + Payload) outcome \<times> call list" where
  "GetMetadata e h =
     (case httpGetMetadata e h of
        Some err \<Rightarrow> (Panicked (FailedToGETMetadata err), h @ [CallHttpGetMetadata])
      | None \<Rightarrow>
          (case readBody e (h @ [CallHttpGetMetadata]) of
             Inl err \<Rightarrow> (Panicked (FailedToReadBody err), h @ [CallHttpGetMetadata, CallReadBody])
           | Inr body \<Rightarrow>
               (case jsonUnmarshal e body of
                  Inl err \<Rightarrow> (Panicked (FailedToUnmarshalJSON err), h @ [CallHttpGetMetadata, CallReadBody])
                | Inr payload \<Rightarrow> (Returned (Inr payload), h @ [CallHttpGetMetadata, CallReadBody]))))"

definition GetNodeLabel :: "env \<Rightarrow> string \<Rightarrow> call list \<Rightarrow> (error + string) outcome \<times> call list" where
  "GetNodeLabel e labelKey h =
     (case inClusterConfig e h of
        Some err \<Rightarrow> (Returned (Inl (FailedInClusterConfig err)), h @ [CallInClusterConfig])
      | None \<Rightarrow>
     (case newForConfig e (h @ [CallInClusterConfig]) of
        Some err \<Rightarrow> (Returned (Inl (FailedCreateKubernetesClient err)), h @ [CallInClusterConfig, CallNewForConfig])
      | None \<Rightarrow>
     (case GetMetadata e (h @ [CallInClusterConfig, CallNewForConfig]) of
        (Panicked p, h1) \<Rightarrow> (Panicked p, h1)
      | (Returned (Inl err), h1) \<Rightarrow> (Returned (Inl (FailedGetMetadata err)), h1)
      | (Returned (Inr response), h1) \<Rightarrow>
     (let instanceHostname = PayloadName response in
      case nodesGet e h1 instanceHostname of
        Inl err \<Rightarrow> (Returned (Inl (FailedGetNode instanceHostname err)), h1 @ [CallNodesGet instanceHostname])
      | Inr node \<Rightarrow>
          (case Labels node labelKey of
             None \<Rightarrow> (Returned (Inl (LabelNotFound labelKey instanceHostname)), h1 @ [CallNodesGet instanceHostname])
           | Some v \<Rightarrow> (Returned (Inr v), h1 @ [CallNodesGet instanceHostname]))))))"

subsection \<open>Node groups and the manager\<close>

text \<open>
  The handle of a node group. The field \<open>manager\<close> of the source, a pointer back to the one
  manager, is not a field here: the operations take the manager as an argument. The field
  \<open>nodeGroup\<close> points to the handle's own copy of the API record (the loop variable of
  \<open>Refresh\<close> is a fresh variable in each iteration, as in Go 1.22 and later).
\<close>

record NodeGroup =
  id :: go_int
  minSize :: go_int
  maxSize :: go_int
  nodeGroup :: "ClusterNodeGroupFields option"
  nodes :: "ClusterNodeFields list option"
  clusterId :: go_int
  status :: string

record Manager =
  nodeGroups :: "NodeGroup list"

definition MaxSize :: "NodeGroup \<Rightarrow> go_int" where
  "MaxSize n = maxSize n"

definition MinSize :: "NodeGroup \<Rightarrow> go_int" where
  "MinSize n = minSize n"

definition TargetSize :: "NodeGroup \<Rightarrow> (go_int \<times> error option) outcome" where
  "TargetSize n =
     (case nodeGroup n of
        None \<Rightarrow> Panicked NilDereference
      | Some ng \<Rightarrow>
          (case Count ng of
             None \<Rightarrow> Panicked NilDereference
           | Some c \<Rightarrow> Returned (c, None)))"

subsection \<open>Manager.Refresh\<close>

text \<open>
  The body of the loop over the node-group records, for one record: \<open>Inr None\<close> is
  \<open>continue\<close>, \<open>Inr (Some g)\<close> the handle appended to the list \<open>group\<close> (here \<open>grp\<close>), \<open>Inl err\<close> the early
  \<open>return err\<close>. The arguments of the log calls are evaluated, so a nil \<open>Id\<close> or \<open>Count\<close>
  panics there.
\<close>

definition refresh_record ::
  "env \<Rightarrow> go_int \<Rightarrow> ClusterFields \<Rightarrow> ClusterNodeGroupFields \<Rightarrow> call list
    \<Rightarrow> (error + NodeGroup option) outcome \<times> call list" where
  "refresh_record e clusterIdInt cluster ng h =
     (case Role ng of
        None \<Rightarrow> (Panicked NilDereference, h)
      | Some role \<Rightarrow>
     (if role \<noteq> ''worker'' then (Returned (Inr None), h)
      else
     (case MaxCount ng of
        None \<Rightarrow> (Panicked NilDereference, h)
      | Some maxCount \<Rightarrow>
     (case MinCount ng of
        None \<Rightarrow> (Panicked NilDereference, h)
      | Some minCount \<Rightarrow>
     (if maxCount \<le>s minCount then
        (case Id ng of
           None \<Rightarrow> (Panicked NilDereference, h)
         | Some _ \<Rightarrow> (Returned (Inr None), h))
      else
     (case GetClusterNodesWithResponse e h clusterIdInt of
        Inl err \<Rightarrow> (Returned (Inl err), h @ [CallGetClusterNodes clusterIdInt])
      | Inr nds \<Rightarrow>
     (case Id ng of
        None \<Rightarrow> (Panicked NilDereference, h @ [CallGetClusterNodes clusterIdInt])
      | Some i \<Rightarrow>
     (case Count ng of
        None \<Rightarrow> (Panicked NilDereference, h @ [CallGetClusterNodes clusterIdInt])
      | Some _ \<Rightarrow>
     (case Status cluster of
        None \<Rightarrow> (Panicked NilDereference, h @ [CallGetClusterNodes clusterIdInt])
      | Some st \<Rightarrow>
          (Returned (Inr (Some \<lparr> id = i, minSize = minCount, maxSize = maxCount,
                                 nodeGroup = Some ng, nodes = nds,
                                 clusterId = clusterIdInt, status = st \<rparr>)),
           h @ [CallGetClusterNodes clusterIdInt]))))))))))"

fun refresh_loop ::
  "env \<Rightarrow> go_int \<Rightarrow> ClusterFields \<Rightarrow> ClusterNodeGroupFields list \<Rightarrow> NodeGroup list \<Rightarrow> call list
    \<Rightarrow> (error + NodeGroup list) outcome \<times> call list" where
  "refresh_loop e clusterIdInt cluster [] grp h = (Returned (Inr grp), h)"
| "refresh_loop e clusterIdInt cluster (ng # rest) grp h =
     (case refresh_record e clusterIdInt cluster ng h of
        (Panicked p, h1) \<Rightarrow> (Panicked p, h1)
      | (Returned (Inl err), h1) \<Rightarrow> (Returned (Inl err), h1)
      | (Returned (Inr None), h1) \<Rightarrow> refresh_loop e clusterIdInt cluster rest grp h1
      | (Returned (Inr (Some g)), h1) \<Rightarrow> refresh_loop e clusterIdInt cluster rest (grp @ [g]) h1)"

definition Refresh :: "env \<Rightarrow> Manager \<Rightarrow> call list \<Rightarrow> error option outcome \<times> Manager \<times> call list" where
  "Refresh e m h =
     (case GetNodeLabel e clusterIdLabel h of
        (Panicked p, h1) \<Rightarrow> (Panicked p, m, h1)
      | (Returned (Inl err), h1) \<Rightarrow> (Returned (Some err), m, h1)
      | (Returned (Inr clusterIdStr), h1) \<Rightarrow>
     (case Atoi clusterIdStr of
        Inl err \<Rightarrow> (Returned (Some err), m, h1)
      | Inr clusterIdInt \<Rightarrow>
     (case ListNodeGroupsWithResponse e h1 clusterIdInt of
        Inl err \<Rightarrow> (Returned (Some err), m, h1 @ [CallListNodeGroups clusterIdInt])
      | Inr nodeGroupsPtr \<Rightarrow>
     (case GetClusterWithResponse e (h1 @ [CallListNodeGroups clusterIdInt]) clusterIdInt of
        Inl err \<Rightarrow> (Returned (Some err), m, h1 @ [CallListNodeGroups clusterIdInt, CallGetCluster clusterIdInt])
      | Inr clusterPtr \<Rightarrow>
     (let h2 = h1 @ [CallListNodeGroups clusterIdInt, CallGetCluster clusterIdInt] in
      case clusterPtr of
        None \<Rightarrow> (Panicked NilDereference, m, h2)
      | Some cluster \<Rightarrow>
     (case IsReconciling cluster of
        None \<Rightarrow> (Panicked NilDereference, m, h2)
      | Some True \<Rightarrow> (Returned (Some ClusterIsReconciling), m, h2)
      | Some False \<Rightarrow>
     (case nodeGroupsPtr of
        None \<Rightarrow> (Panicked NilDereference, m, h2)
      | Some records \<Rightarrow>
     (case refresh_loop e clusterIdInt cluster records [] h2 of
        (Panicked p, h3) \<Rightarrow> (Panicked p, m, h3)
      | (Returned (Inl err), h3) \<Rightarrow> (Returned (Some err), m, h3)
      | (Returned (Inr grp), h3) \<Rightarrow> (Returned None, m \<lparr> nodeGroups := grp \<rparr>, h3)))))))))"

subsection \<open>Eligibility of a record, and the records a refresh reads\<close>

text \<open>
  The spec's eligibility of a node-group record: role worker and \<open>maxCount > minCount\<close>.
  \<open>listed_records\<close> is the list that \<open>Refresh\<close> gets from \<open>ListNodeGroups\<close>, read off the
  first three steps of \<open>Refresh\<close>.
\<close>

definition eligible :: "ClusterNodeGroupFields \<Rightarrow> bool" where
  "eligible ng =
     (Role ng = Some ''worker'' \<and>
      (case MinCount ng of
         None \<Rightarrow> False
       | Some mn \<Rightarrow> (case MaxCount ng of None \<Rightarrow> False | Some mx \<Rightarrow> mn <s mx)))"

definition listed_records :: "env \<Rightarrow> call list \<Rightarrow> ClusterNodeGroupFields list option" where
  "listed_records e h =
     (case GetNodeLabel e clusterIdLabel h of
        (Returned (Inr s), h1) \<Rightarrow>
          (case Atoi s of
             Inr cid \<Rightarrow>
               (case ListNodeGroupsWithResponse e h1 cid of
                  Inr (Some recs) \<Rightarrow> Some recs
                | _ \<Rightarrow> None)
           | Inl _ \<Rightarrow> None)
      | _ \<Rightarrow> None)"

subsection \<open>NodeGroup.IncreaseSize\<close>

text \<open>
  The first statement logs \<open>*n.nodeGroup.Name\<close>, so a nil record or a nil name panics
  before anything else. \<open>targetSize\<close> is the wrapping 64-bit sum. The only check is
  \<open>targetSize > n.MaxSize()\<close>; then the API is called with \<open>delta\<close> and, if that
  succeeds, \<open>Count\<close> is pointed to \<open>targetSize\<close>.
\<close>

definition IncreaseSize ::
  "env \<Rightarrow> NodeGroup \<Rightarrow> go_int \<Rightarrow> call list \<Rightarrow> error option outcome \<times> NodeGroup \<times> call list" where
  "IncreaseSize e n delta h =
     (case nodeGroup n of
        None \<Rightarrow> (Panicked NilDereference, n, h)
      | Some ng \<Rightarrow>
     (case Name ng of
        None \<Rightarrow> (Panicked NilDereference, n, h)
      | Some _ \<Rightarrow>
     (case Count ng of
        None \<Rightarrow> (Panicked NilDereference, n, h)
      | Some c \<Rightarrow>
     (let targetSize = c + delta in
      if MaxSize n <s targetSize then
        (Returned (Some (SizeIncreaseTooLarge c targetSize (MaxSize n))), n, h)
      else
        (case CreateNodeWithResponse e h (clusterId n) delta (Name ng) of
           Some err \<Rightarrow> (Returned (Some err), n, h @ [CallCreateNode (clusterId n) delta (Name ng)])
         | None \<Rightarrow>
             (Returned None,
              n \<lparr> nodeGroup := Some (ng \<lparr> Count := Some targetSize \<rparr>) \<rparr>,
              h @ [CallCreateNode (clusterId n) delta (Name ng)]))))))"

subsection \<open>DeleteNodeObject and NodeGroup.DeleteNodes\<close>

fun delete_node_objects :: "env \<Rightarrow> string list \<Rightarrow> call list \<Rightarrow> error option \<times> call list" where
  "delete_node_objects e [] h = (None, h)"
| "delete_node_objects e (nodeName # rest) h =
     (case nodesDelete e h nodeName of
        Some err \<Rightarrow> (Some (FailedDeleteNode nodeName err), h @ [CallNodesDelete nodeName])
      | None \<Rightarrow> delete_node_objects e rest (h @ [CallNodesDelete nodeName]))"

definition DeleteNodeObject :: "env \<Rightarrow> string list \<Rightarrow> call list \<Rightarrow> error option \<times> call list" where
  "DeleteNodeObject e nodeNames h =
     (case inClusterConfig e h of
        Some err \<Rightarrow> (Some (FailedInClusterConfig err), h @ [CallInClusterConfig])
      | None \<Rightarrow>
          (case newForConfig e (h @ [CallInClusterConfig]) of
             Some err \<Rightarrow> (Some (FailedCreateKubernetesClient err), h @ [CallInClusterConfig, CallNewForConfig])
           | None \<Rightarrow> delete_node_objects e nodeNames (h @ [CallInClusterConfig, CallNewForConfig])))"

text \<open>
  The loop of \<open>DeleteNodes\<close> over the candidate nodes (pointers, so \<open>None\<close> is nil): the
  node-id label is looked up, then the role label (a missing key reads as the empty
  string); a missing node-id label is an error, whatever the role; a node whose role is
  not \<open>worker\<close> is skipped; otherwise the id is parsed and collected with the name.
\<close>

fun delete_nodes_collect ::
  "Node option list \<Rightarrow> go_int list \<Rightarrow> string list \<Rightarrow> (error + go_int list \<times> string list) outcome" where
  "delete_nodes_collect [] nodeIDsInt nodeNames = Returned (Inr (nodeIDsInt, nodeNames))"
| "delete_nodes_collect (nd # rest) nodeIDsInt nodeNames =
     (case nd of
        None \<Rightarrow> Panicked NilDereference
      | Some node \<Rightarrow>
          (let nodeRole = (case Labels node nodeRoleLabel of None \<Rightarrow> [] | Some r \<Rightarrow> r) in
           case Labels node nodeIdLabel of
             None \<Rightarrow> Returned (Inl (NodeWithoutNodeIDLabel (NodeName node)))
           | Some nodeID \<Rightarrow>
               if nodeRole \<noteq> ''worker'' then delete_nodes_collect rest nodeIDsInt nodeNames
               else (case Atoi nodeID of
                       Inl err \<Rightarrow> Returned (Inl err)
                     | Inr nodeIDInt \<Rightarrow>
                         delete_nodes_collect rest (nodeIDsInt @ [nodeIDInt]) (nodeNames @ [NodeName node]))))"

definition DeleteNodes ::
  "env \<Rightarrow> Manager \<Rightarrow> NodeGroup \<Rightarrow> Node option list \<Rightarrow> call list
    \<Rightarrow> error option outcome \<times> NodeGroup \<times> call list" where
  "DeleteNodes e manager n nds h =
     (if length (nodeGroups manager) = 0 then (Returned None, n, h)
      else
     (case delete_nodes_collect nds [] [] of
        Panicked p \<Rightarrow> (Panicked p, n, h)
      | Returned (Inl err) \<Rightarrow> (Returned (Some err), n, h)
      | Returned (Inr (nodeIDsInt, nodeNames)) \<Rightarrow>
     (case DeleteClusterNodesWithResponse e h (clusterId n) nodeIDsInt of
        Some err \<Rightarrow> (Returned (Some err), n, h @ [CallDeleteClusterNodes (clusterId n) nodeIDsInt])
      | None \<Rightarrow>
     (let h1 = h @ [CallDeleteClusterNodes (clusterId n) nodeIDsInt] in
      case nodeGroup n of
        None \<Rightarrow> (Panicked NilDereference, n, h1)
      | Some ng \<Rightarrow>
     (case Count ng of
        None \<Rightarrow> (Panicked NilDereference, n, h1)
      | Some c \<Rightarrow>
     (let n' = n \<lparr> nodeGroup := Some (ng \<lparr> Count := Some (c - word_of_nat (length nodeIDsInt)) \<rparr>) \<rparr> in
      case DeleteNodeObject e nodeNames h1 of
        (Some err, h2) \<Rightarrow> (Returned (Some err), n', h2)
      | (None, h2) \<Rightarrow> (Returned None, n', h2)))))))"

subsection \<open>Sample cluster\<close>

definition sample_payload :: Payload where
  "sample_payload =
     \<lparr> UUID = ''0b6e'', PayloadMeta = \<lparr> Cluster = ''demo'', MetaRole = ''worker'', InfrahubKey = [] \<rparr>,
       PublicKeys = Map.empty, Keys = [], Hostname = ''node-a'', PayloadName = ''node-a'',
       LaunchIndex = 0, AZ = ''nova'', RandomSeed = [], ProjectID = ''p1'' \<rparr>"

definition sample_env :: "ClusterNodeGroupFields list \<Rightarrow> ClusterFields \<Rightarrow> env" where
  "sample_env recs cl =
     \<lparr> inClusterConfig = (\<lambda>_. None),
       newForConfig = (\<lambda>_. None),
       httpGetMetadata = (\<lambda>_. None),
       readBody = (\<lambda>_. Inr ''{}''),
       jsonUnmarshal = (\<lambda>_. Inr sample_payload),
       nodesGet = (\<lambda>_ name. if name = ''node-a''
                     then Inr \<lparr> NodeName = ''node-a'', Labels = [clusterIdLabel \<mapsto> ''7''] \<rparr>
                     else Inl (External ''not found'')),
       nodesDelete = (\<lambda>_ _. None),
       ListNodeGroupsWithResponse = (\<lambda>_ _. Inr (Some recs)),
       GetClusterWithResponse = (\<lambda>_ _. Inr (Some cl)),
       GetClusterNodesWithResponse = (\<lambda>_ _. Inr (Some [\<lparr> NodeId = Some 100 \<rparr>, \<lparr> NodeId = Some 200 \<rparr>])),
       CreateNodeWithResponse = (\<lambda>_ _ _ _. None),
       DeleteClusterNodesWithResponse = (\<lambda>_ _ _. None) \<rparr>"

definition active_cluster :: ClusterFields where
  "active_cluster = \<lparr> IsReconciling = Some False, Status = Some ''ACTIVE'' \<rparr>"

definition reconciling_cluster :: ClusterFields where
  "reconciling_cluster = \<lparr> IsReconciling = Some True, Status = Some ''RECONCILING'' \<rparr>"

definition sample_record :: "go_int \<Rightarrow> string \<Rightarrow> go_int \<Rightarrow> go_int \<Rightarrow> go_int \<Rightarrow> ClusterNodeGroupFields" where
  "sample_record i role mn mx c =
     \<lparr> Id = Some i, Name = Some ''group-a'', Role = Some role,
       MinCount = Some mn, MaxCount = Some mx, Count = Some c \<rparr>"

definition newTestNodeGroup :: "go_int \<Rightarrow> go_int \<Rightarrow> go_int \<Rightarrow> go_int \<Rightarrow> NodeGroup" where
  "newTestNodeGroup mn mx c i =
     \<lparr> id = i, minSize = mn, maxSize = mx,
       nodeGroup = Some (sample_record i ''worker'' mn mx c),
       nodes = Some [], clusterId = 123, status = ''ACTIVE'' \<rparr>"

subsection \<open>Calls of the gateway in a trace\<close>

text \<open>
  \<open>gateway_error_at e tr k\<close> is the error that the Hyperstack gateway returned to the call at
  position \<open>k\<close> of the trace \<open>tr\<close>, if that call is one of the three calls of \<open>Refresh\<close>
  and the gateway answered it, after the calls before it, with an error.
\<close>

definition gateway_error_at :: "env \<Rightarrow> call list \<Rightarrow> nat \<Rightarrow> error option" where
  "gateway_error_at e tr k =
     (case tr ! k of
        CallListNodeGroups cid \<Rightarrow>
          (case ListNodeGroupsWithResponse e (take k tr) cid of Inl err \<Rightarrow> Some err | Inr _ \<Rightarrow> None)
      | CallGetCluster cid \<Rightarrow>
          (case GetClusterWithResponse e (take k tr) cid of Inl err \<Rightarrow> Some err | Inr _ \<Rightarrow> None)
      | CallGetClusterNodes cid \<Rightarrow>
          (case GetClusterNodesWithResponse e (take k tr) cid of Inl err \<Rightarrow> Some err | Inr _ \<Rightarrow> None)
      | _ \<Rightarrow> None)"

definition is_gateway :: "call \<Rightarrow> bool" where
  "is_gateway c =
     (case c of
        CallListNodeGroups _ \<Rightarrow> True
      | CallGetCluster _ \<Rightarrow> True
      | CallGetClusterNodes _ \<Rightarrow> True
      | _ \<Rightarrow> False)"

subsection \<open>The retrying HTTP client\<close>

record Response =
  StatusCode :: go_int

record RetryConfig =
  MaxRetries :: go_int
  BaseDelay :: go_int
  MaxDelay :: go_int
  RetryableErrors :: "go_int list"

definition DefaultRetryConfig :: RetryConfig where
  "DefaultRetryConfig =
     \<lparr> MaxRetries = 3, BaseDelay = 100 * 1000000, MaxDelay = 5 * 1000000000,
       RetryableErrors = [429, 500, 502, 503, 504] \<rparr>"

fun status_in :: "go_int list \<Rightarrow> go_int \<Rightarrow> bool" where
  "status_in [] statusCode = False"
| "status_in (code # rest) statusCode = (if statusCode = code then True else status_in rest statusCode)"

definition isRetryableError :: "RetryConfig \<Rightarrow> go_int \<Rightarrow> bool" where
  "isRetryableError rc statusCode = status_in (RetryableErrors rc) statusCode"

text \<open>
  What \<open>Do\<close> does to the outside, in order: a round trip of the wrapped client, closing a
  response body, sleeping before the retry that follows attempt \<open>n\<close> (for the time
  \<open>calculateDelay n\<close>, which has no influence on the control flow). The transport answers
  each round trip, and the request's context says before each attempt whether it is done
  (\<open>Some err\<close> is \<open>ctx.Err()\<close>), both depending on what happened so far.
\<close>

datatype http_event = RoundTrip | BodyClose | Sleep go_int

record transport =
  ctxErr :: "http_event list \<Rightarrow> error option"
  clientDo :: "http_event list \<Rightarrow> error + Response"

lemma sint_succ_below:
  fixes a b :: go_int
  assumes "a <s b"
  shows "sint (a + 1) = sint a + 1"
proof -
  have "sint a < sint b" using assms by (simp add: word_sless_alt)
  moreover have "sint b < 2 ^ 63" using sint_lt[of b] by simp
  moreover have "- (2 ^ 63) \<le> sint a" using sint_ge[of a] by simp
  ultimately have "signed_take_bit 63 (sint a + 1) = sint a + 1"
    by (intro signed_take_bit_int_eq_self) auto
  then show ?thesis by (simp add: sint_word_ariths)
qed

function Do_from ::
  "RetryConfig \<Rightarrow> transport \<Rightarrow> go_int \<Rightarrow> error option \<Rightarrow> Response option \<Rightarrow> http_event list
    \<Rightarrow> (Response option \<times> error option) \<times> http_event list" where
  "Do_from rc t attempt lastErr lastResp h =
     (if attempt \<le>s MaxRetries rc then
        (case ctxErr t h of
           Some cerr \<Rightarrow> ((None, Some cerr), h)
         | None \<Rightarrow>
             (case clientDo t h of
                Inl err \<Rightarrow>
                  if attempt <s MaxRetries rc
                  then Do_from rc t (attempt + 1) (Some err) lastResp (h @ [RoundTrip, Sleep attempt])
                  else ((None, Some err), h @ [RoundTrip])
              | Inr resp \<Rightarrow>
                  if isRetryableError rc (StatusCode resp) then
                    (if attempt <s MaxRetries rc
                     then Do_from rc t (attempt + 1) lastErr (Some resp)
                            (h @ [RoundTrip, BodyClose, Sleep attempt])
                     else ((Some resp, None), h @ [RoundTrip]))
                  else ((Some resp, None), h @ [RoundTrip])))
      else
        (case lastResp of
           Some resp \<Rightarrow> ((Some resp, None), h)
         | None \<Rightarrow> ((None, Some (MaxRetriesExceeded lastErr)), h)))"
  by pat_completeness auto
termination
  by (relation "measure (\<lambda>(rc, t, attempt, lastErr, lastResp, h). nat (sint (MaxRetries rc) - sint attempt))")
     (auto simp: sint_succ_below word_sless_alt)

declare Do_from.simps [simp del]

definition Do :: "RetryConfig \<Rightarrow> transport \<Rightarrow> http_event list
    \<Rightarrow> (Response option \<times> error option) \<times> http_event list" where
  "Do rc t h = Do_from rc t 0 None None h"

text \<open>A transport that answers the \<open>k\<close>-th round trip with the \<open>k\<close>-th entry of a script.\<close>

definition round_trips :: "http_event list \<Rightarrow> nat" where
  "round_trips h = length (filter (\<lambda>ev. ev = RoundTrip) h)"

definition scripted :: "(error + Response) list \<Rightarrow> transport" where
  "scripted script =
     \<lparr> ctxErr = (\<lambda>_. None),
       clientDo = (\<lambda>h. if round_trips h < length script then script ! round_trips h
                       else Inl (External ''no more mock responses'')) \<rparr>"

subsection \<open>CustomTime: the timestamp codec\<close>

text \<open>
  A \<open>time.Time\<close> is kept as what \<open>Format\<close> prints from and \<open>Parse\<close> builds: the civil
  date and clock in the value's own location, and that location's offset from UTC in
  seconds (0 for UTC). \<open>valid_time\<close> holds of every value that Go can build.
  \<open>Format\<close> and \<open>Parse\<close> are those of Go's time package, for the one layout
  \<open>2006-01-02T15:04:05\<close>.
\<close>

record Time =
  Year :: int
  Month :: int
  Day :: int
  Hour :: int
  Minute :: int
  Second :: int
  Nanosecond :: int
  ZoneOffset :: int

record CustomTime =
  CtTime :: Time

definition zero_time :: Time where
  "zero_time = \<lparr> Year = 1, Month = 1, Day = 1, Hour = 0, Minute = 0, Second = 0,
                  Nanosecond = 0, ZoneOffset = 0 \<rparr>"

definition isLeap :: "int \<Rightarrow> bool" where
  "isLeap y = (y mod 4 = 0 \<and> (y mod 100 \<noteq> 0 \<or> y mod 400 = 0))"

definition daysIn :: "int \<Rightarrow> int \<Rightarrow> int" where
  "daysIn m y =
     (if m = 2 then (if isLeap y then 29 else 28)
      else if m = 4 \<or> m = 6 \<or> m = 9 \<or> m = 11 then 30 else 31)"

definition valid_time :: "Time \<Rightarrow> bool" where
  "valid_time t =
     (1 \<le> Month t \<and> Month t \<le> 12 \<and> 1 \<le> Day t \<and> Day t \<le> daysIn (Month t) (Year t)
      \<and> 0 \<le> Hour t \<and> Hour t < 24 \<and> 0 \<le> Minute t \<and> Minute t < 60
      \<and> 0 \<le> Second t \<and> Second t < 60 \<and> 0 \<le> Nanosecond t \<and> Nanosecond t < 1000000000)"

definition digit_char :: "nat \<Rightarrow> char" where
  "digit_char d = char_of (48 + d)"

fun dec_digits :: "nat \<Rightarrow> string" where
  "dec_digits n = (if n < 10 then [digit_char n] else dec_digits (n div 10) @ [digit_char (n mod 10)])"

declare dec_digits.simps [simp del]

definition appendInt :: "int \<Rightarrow> nat \<Rightarrow> string" where
  "appendInt x width =
     (let u = nat \<bar>x\<bar>
      in (if x < 0 then ''-'' else []) @
         (if width = 2 \<and> u < 100 then [digit_char (u div 10), digit_char (u mod 10)]
          else if width = 4 \<and> u < 10000 then
            [digit_char (u div 1000), digit_char (u div 100 mod 10),
             digit_char (u div 10 mod 10), digit_char (u mod 10)]
          else replicate (width - length (dec_digits u)) CHR ''0'' @ dec_digits u))"

definition Format :: "Time \<Rightarrow> string" where
  "Format t =
     appendInt (Year t) 4 @ ''-'' @ appendInt (Month t) 2 @ ''-'' @ appendInt (Day t) 2 @ ''T'' @
     appendInt (Hour t) 2 @ '':'' @ appendInt (Minute t) 2 @ '':'' @ appendInt (Second t) 2"

definition isDigit :: "string \<Rightarrow> nat \<Rightarrow> bool" where
  "isDigit s i = (i < length s \<and> is_digit (s ! i))"

definition getnum :: "string \<Rightarrow> bool \<Rightarrow> (int \<times> string) option" where
  "getnum s fixed =
     (if \<not> isDigit s 0 then None
      else if \<not> isDigit s 1 then (if fixed then None else Some (int (digit_val (s ! 0)), drop 1 s))
      else Some (int (digit_val (s ! 0)) * 10 + int (digit_val (s ! 1)), drop 2 s))"

definition skip :: "string \<Rightarrow> char \<Rightarrow> string option" where
  "skip v c = (case v of [] \<Rightarrow> None | x # rest \<Rightarrow> if x = c then Some rest else None)"

definition parse_year :: "string \<Rightarrow> (int \<times> string) option" where
  "parse_year v =
     (if length v < 4 \<or> \<not> isDigit v 0 then None
      else if list_all is_digit (take 4 v)
           then Some (int (foldl (\<lambda>n c. 10 * n + digit_val c) 0 (take 4 v)), drop 4 v)
           else None)"

definition commaOrPeriod :: "char \<Rightarrow> bool" where
  "commaOrPeriod c = (c = CHR ''.'' \<or> c = CHR '','')"

text \<open>
  The fractional second that \<open>Parse\<close> accepts after the seconds although the layout has
  none: a period or comma and digits, of which the first nine count.
\<close>

definition parse_fraction :: "string \<Rightarrow> int \<times> string" where
  "parse_fraction v =
     (if 2 \<le> length v \<and> commaOrPeriod (v ! 0) \<and> isDigit v 1 then
        (let ds = takeWhile is_digit (drop 1 v);
             used = take 9 ds
         in (int (foldl (\<lambda>n c. 10 * n + digit_val c) 0 used) * 10 ^ (9 - length used),
             drop (1 + length ds) v))
      else (0, v))"

definition Parse :: "string \<Rightarrow> error + Time" where
  "Parse value =
     (case parse_year value of None \<Rightarrow> Inl (TimeParseError value) | Some (y, v1) \<Rightarrow>
     (case skip v1 CHR ''-'' of None \<Rightarrow> Inl (TimeParseError value) | Some v2 \<Rightarrow>
     (case getnum v2 True of None \<Rightarrow> Inl (TimeParseError value) | Some (mo, v3) \<Rightarrow>
     (if mo \<le> 0 \<or> 12 < mo then Inl (TimeParseError value) else
     (case skip v3 CHR ''-'' of None \<Rightarrow> Inl (TimeParseError value) | Some v4 \<Rightarrow>
     (case getnum v4 True of None \<Rightarrow> Inl (TimeParseError value) | Some (d, v5) \<Rightarrow>
     (case skip v5 CHR ''T'' of None \<Rightarrow> Inl (TimeParseError value) | Some v6 \<Rightarrow>
     (case getnum v6 False of None \<Rightarrow> Inl (TimeParseError value) | Some (hh, v7) \<Rightarrow>
     (if hh < 0 \<or> 24 \<le> hh then Inl (TimeParseError value) else
     (case skip v7 CHR '':'' of None \<Rightarrow> Inl (TimeParseError value) | Some v8 \<Rightarrow>
     (case getnum v8 True of None \<Rightarrow> Inl (TimeParseError value) | Some (mi, v9) \<Rightarrow>
     (if mi < 0 \<or> 60 \<le> mi then Inl (TimeParseError value) else
     (case skip v9 CHR '':'' of None \<Rightarrow> Inl (TimeParseError value) | Some v10 \<Rightarrow>
     (case getnum v10 True of None \<Rightarrow> Inl (TimeParseError value) | Some (ss, v11) \<Rightarrow>
     (if ss < 0 \<or> 60 \<le> ss then Inl (TimeParseError value) else
     (case parse_fraction v11 of (ns, v12) \<Rightarrow>
     (if v12 \<noteq> [] then Inl (TimeParseError value)
      else if d < 1 \<or> daysIn mo y < d then Inl (TimeParseError value)
      else Inr \<lparr> Year = y, Month = mo, Day = d, Hour = hh, Minute = mi, Second = ss,
                 Nanosecond = ns, ZoneOffset = 0 \<rparr>)))))))))))))))))"

definition trim_quotes :: "string \<Rightarrow> string" where
  "trim_quotes s = rev (dropWhile (\<lambda>c. c = CHR 0x22) (rev (dropWhile (\<lambda>c. c = CHR 0x22) s)))"

definition UnmarshalJSON :: "CustomTime \<Rightarrow> string \<Rightarrow> CustomTime \<times> error option" where
  "UnmarshalJSON ct b =
     (let s = trim_quotes b
      in if s = ''null'' then (ct \<lparr> CtTime := zero_time \<rparr>, None)
         else (case Parse s of
                 Inl err \<Rightarrow> (ct \<lparr> CtTime := zero_time \<rparr>, Some err)
               | Inr t \<Rightarrow> (ct \<lparr> CtTime := t \<rparr>, None)))"

definition MarshalJSON :: "CustomTime \<Rightarrow> string \<times> error option" where
  "MarshalJSON ct = ([CHR 0x22] @ Format (CtTime ct) @ [CHR 0x22], None)"

subsection \<open>calculateDelay: exponential backoff with jitter\<close>

text \<open>
  Go's \<open>float64\<close> values are kept as the rationals they denote, and every floating-point
  operation of the source is the exact operation followed by \<open>f64\<close>, the rounding of
  IEEE 754 binary64: to the nearest value with a 53-bit significand, ties to the even
  significand. \<open>binexp x\<close> is the binary exponent of a positive \<open>x\<close>
  (\<open>2 ^ binexp x \<le> x < 2 ^ (binexp x + 1)\<close>), found from bit lengths; \<open>rne\<close> rounds to the
  nearest integer, ties to even. The exponent range of binary64 is not cut off in \<open>f64\<close>:
  in \<open>calculateDelay\<close> a value beyond it is also beyond the range of \<open>int64\<close>, where
  the model stops anyway.
\<close>

fun bit_length :: "nat \<Rightarrow> nat" where
  "bit_length n = (if n = 0 then 0 else Suc (bit_length (n div 2)))"

declare bit_length.simps [simp del]

definition binexp :: "rat \<Rightarrow> int" where
  "binexp x =
     (if 1 \<le> x then int (bit_length (nat \<lfloor>x\<rfloor>)) - 1
      else - int (bit_length (nat (\<lceil>1 / x\<rceil> - 1))))"

definition rne :: "rat \<Rightarrow> int" where
  "rne x =
     (let f = \<lfloor>x\<rfloor>; r = x - of_int f
      in if r < 1 / 2 then f else if 1 / 2 < r then f + 1 else if even f then f else f + 1)"

definition f64 :: "rat \<Rightarrow> rat" where
  "f64 x =
     (if x = 0 then 0
      else (let q = 2 powi (binexp \<bar>x\<bar> - 52)
            in sgn x * of_int (rne (\<bar>x\<bar> / q)) * q))"

text \<open>
  The conversion \<open>time.Duration(f)\<close> of a \<open>float64\<close>: the fraction is discarded
  (truncation towards zero); when the result does not fit \<open>int64\<close> the Go specification
  leaves the value to the implementation, and the model gives \<open>None\<close>.
\<close>

definition to_duration :: "rat \<Rightarrow> go_int option" where
  "to_duration f =
     (let k = (if 0 \<le> f then \<lfloor>f\<rfloor> else \<lceil>f\<rceil>)
      in if - (2 ^ 63) \<le> k \<and> k < 2 ^ 63 then Some (word_of_int k) else None)"

text \<open>
  \<open>calculateDelay\<close>, with the value \<open>U\<close> drawn by \<open>rand.Float64()\<close> as an argument.
  \<open>math.Pow(2, n)\<close> is the exact power of two up to \<open>n = 1023\<close> and infinite above, where
  the product is infinite or not a number and its conversion is left to the
  implementation (\<open>None\<close>).
\<close>

definition calculateDelay :: "RetryConfig \<Rightarrow> go_int \<Rightarrow> rat \<Rightarrow> go_int option" where
  "calculateDelay rc attempt U =
     (if 1023 < sint attempt then None
      else
        (case to_duration (f64 (f64 (of_int (sint (BaseDelay rc))) * 2 powi (sint attempt))) of
           None \<Rightarrow> None
         | Some d0 \<Rightarrow>
             (let delay = (if MaxDelay rc <s d0 then MaxDelay rc else d0)
              in to_duration (f64 (f64 (f64 (of_int (sint delay)) * f64 (1 / 2 + U)) * (1 / 2))))))"

text \<open>The spec's \<open>base = min(BaseDelay \<cdot> 2\<^sup>n, MaxDelay)\<close>, for \<open>n \<ge> 0\<close>.\<close>

definition nominal_base :: "RetryConfig \<Rightarrow> go_int \<Rightarrow> int" where
  "nominal_base rc attempt =
     min (sint (BaseDelay rc) * 2 ^ nat (sint attempt)) (sint (MaxDelay rc))"

subsection \<open>Vocabulary of the statements, and sample inputs\<close>

text \<open>
  What a caller gets when an attempt is the last one, and when an attempt is one that
  the client retries (a transport failure, or a response whose status is retryable).
\<close>

definition final_result :: "error + Response \<Rightarrow> Response option \<times> error option" where
  "final_result x = (case x of Inl err \<Rightarrow> (None, Some err) | Inr resp \<Rightarrow> (Some resp, None))"

definition retryable_outcome :: "RetryConfig \<Rightarrow> error + Response \<Rightarrow> bool" where
  "retryable_outcome rc x =
     (case x of Inl _ \<Rightarrow> True | Inr resp \<Rightarrow> isRetryableError rc (StatusCode resp))"

definition constant_transport :: "error + Response \<Rightarrow> transport" where
  "constant_transport x = \<lparr> ctxErr = (\<lambda>_. None), clientDo = (\<lambda>_. x) \<rparr>"

text \<open>
  A candidate of \<open>DeleteNodes\<close> that the loop gets past: not nil, with a node-id label,
  and either no worker or with an id that \<open>Atoi\<close> reads.
\<close>

definition collectable :: "Node option \<Rightarrow> bool" where
  "collectable x =
     (case x of
        None \<Rightarrow> False
      | Some nd \<Rightarrow>
          (case Labels nd nodeIdLabel of
             None \<Rightarrow> False
           | Some nodeID \<Rightarrow>
               Labels nd nodeRoleLabel \<noteq> Some ''worker''
               \<or> (case Atoi nodeID of Inl _ \<Rightarrow> False | Inr _ \<Rightarrow> True)))"

text \<open>
  The workers among the candidates of \<open>DeleteNodes\<close>, each with its id and its name, in
  the order of the list: the candidates that carry the node-id label, have the role
  \<open>worker\<close> and an id that \<open>Atoi\<close> reads.
\<close>

definition worker_entry :: "Node option \<Rightarrow> (go_int \<times> string) option" where
  "worker_entry x =
     (case x of
        None \<Rightarrow> None
      | Some nd \<Rightarrow>
          (case Labels nd nodeIdLabel of
             None \<Rightarrow> None
           | Some nodeID \<Rightarrow>
               if Labels nd nodeRoleLabel = Some ''worker'' then
                 (case Atoi nodeID of Inl _ \<Rightarrow> None | Inr i \<Rightarrow> Some (i, NodeName nd))
               else None))"

fun workers :: "Node option list \<Rightarrow> (go_int \<times> string) list" where
  "workers [] = []"
| "workers (x # xs) = (case worker_entry x of None \<Rightarrow> workers xs | Some p \<Rightarrow> p # workers xs)"

definition sample_records :: "ClusterNodeGroupFields list" where
  "sample_records =
     [sample_record 10 ''worker'' 1 5 2, sample_record 11 ''master'' 1 3 3,
      sample_record 12 ''worker'' 2 2 2]"

definition published_handle :: "go_int \<Rightarrow> go_int \<Rightarrow> go_int \<Rightarrow> go_int \<Rightarrow> NodeGroup" where
  "published_handle i mn mx c =
     \<lparr> id = i, minSize = mn, maxSize = mx,
       nodeGroup = Some (sample_record i ''worker'' mn mx c),
       nodes = Some [\<lparr> NodeId = Some 100 \<rparr>, \<lparr> NodeId = Some 200 \<rparr>],
       clusterId = 7, status = ''ACTIVE'' \<rparr>"

definition refresh_trace :: "call list" where
  "refresh_trace =
     [CallInClusterConfig, CallNewForConfig, CallHttpGetMetadata, CallReadBody,
      CallNodesGet ''node-a'', CallListNodeGroups 7, CallGetCluster 7]"

definition worker_node :: "string \<Rightarrow> string \<Rightarrow> Node" where
  "worker_node name nid =
     \<lparr> NodeName = name, Labels = [nodeIdLabel \<mapsto> nid, nodeRoleLabel \<mapsto> ''worker''] \<rparr>"

definition other_node :: "string \<Rightarrow> string \<Rightarrow> Node" where
  "other_node name nid = \<lparr> NodeName = name, Labels = [nodeIdLabel \<mapsto> nid] \<rparr>"

definition unlabelled_node :: "string \<Rightarrow> Node" where
  "unlabelled_node name = \<lparr> NodeName = name, Labels = Map.empty \<rparr>"

definition sample_utc_time :: Time where
  "sample_utc_time = \<lparr> Year = 2024, Month = 5, Day = 6, Hour = 12, Minute = 30, Second = 0,
                        Nanosecond = 0, ZoneOffset = 0 \<rparr>"

definition sample_zoned_time :: Time where
  "sample_zoned_time = \<lparr> Year = 2024, Month = 5, Day = 6, Hour = 12, Minute = 30, Second = 0,
                          Nanosecond = 0, ZoneOffset = 7200 \<rparr>"

definition sample_far_time :: Time where
  "sample_far_time = \<lparr> Year = 10000, Month = 1, Day = 1, Hour = 0, Minute = 0, Second = 0,
                        Nanosecond = 0, ZoneOffset = 0 \<rparr>"

definition unlabelled_local_env :: env where
  "unlabelled_local_env =
     (sample_env sample_records active_cluster)
       \<lparr> nodesGet := (\<lambda>_ _. Inr \<lparr> NodeName = ''node-a'', Labels = Map.empty \<rparr>) \<rparr>"

definition bad_label_env :: env where
  "bad_label_env =
     (sample_env sample_records active_cluster)
       \<lparr> nodesGet := (\<lambda>_ _. Inr \<lparr> NodeName = ''node-a'', Labels = [clusterIdLabel \<mapsto> ''seven''] \<rparr>) \<rparr>"

definition failing_create_env :: env where
  "failing_create_env =
     (sample_env sample_records active_cluster)
       \<lparr> CreateNodeWithResponse := (\<lambda>_ _ _ _. Some (External ''quota exceeded'')) \<rparr>"

definition failing_nodes_env :: env where
  "failing_nodes_env =
     (sample_env sample_records active_cluster)
       \<lparr> GetClusterNodesWithResponse := (\<lambda>_ _. Inl (External ''503'')) \<rparr>"

definition failing_metadata_env :: env where
  "failing_metadata_env =
     (sample_env sample_records active_cluster)
       \<lparr> httpGetMetadata := (\<lambda>_. Some (External ''connection refused'')) \<rparr>"

definition failing_body_env :: env where
  "failing_body_env =
     (sample_env sample_records active_cluster)
       \<lparr> readBody := (\<lambda>_. Inl (External ''unexpected EOF'')) \<rparr>"

definition failing_json_env :: env where
  "failing_json_env =
     (sample_env sample_records active_cluster)
       \<lparr> jsonUnmarshal := (\<lambda>_. Inl (External ''invalid character'')) \<rparr>"

lemmas model_defs =
  Refresh_def GetNodeLabel_def GetMetadata_def Atoi_def refresh_record_def
  sample_env_def sample_record_def sample_records_def active_cluster_def reconciling_cluster_def
  sample_payload_def published_handle_def refresh_trace_def newTestNodeGroup_def
  clusterIdLabel_def nodeIdLabel_def nodeRoleLabel_def is_digit_def digit_val_def Let_def
  listed_records_def eligible_def MaxSize_def MinSize_def TargetSize_def
  worker_node_def other_node_def unlabelled_node_def
  failing_create_env_def failing_nodes_env_def failing_metadata_env_def failing_body_env_def
  failing_json_env_def unlabelled_local_env_def bad_label_env_def

section \<open>Properties\<close>

subsection \<open>Auxiliary facts\<close>

lemma outcome_sum_cases:
  fixes r :: "('a + 'b) outcome"
  obtains (Panic) p where "r = Panicked p"
        | (Err) err where "r = Returned (Inl err)"
        | (Val) v where "r = Returned (Inr v)"
proof (cases r)
  case (Returned x)
  then show ?thesis using that by (cases x) auto
next
  case (Panicked p)
  then show ?thesis using that by auto
qed

lemma refresh_record_Some:
  assumes "refresh_record e cid cl ng h = (Returned (Inr (Some g)), h1)"
  shows "eligible ng \<and> nodeGroup g = Some ng \<and> MinCount ng = Some (minSize g)
         \<and> MaxCount ng = Some (maxSize g) \<and> Id ng = Some (id g) \<and> Count ng \<noteq> None
         \<and> clusterId g = cid \<and> Status cl = Some (status g)"
  using assms
  by (auto simp: refresh_record_def eligible_def word_sless_eq split: option.splits if_splits sum.splits)

lemma refresh_record_None:
  assumes "refresh_record e cid cl ng h = (Returned (Inr None), h1)"
  shows "\<not> eligible ng \<and> h1 = h"
  using assms
  by (auto simp: refresh_record_def eligible_def word_sless_eq split: option.splits if_splits sum.splits)

lemma refresh_loop_published:
  assumes "refresh_loop e cid cl recs grp h = (Returned (Inr out), h1)"
  shows "\<exists>new. out = grp @ new \<and> map nodeGroup new = map Some (filter eligible recs)
           \<and> (\<forall>g \<in> set new. \<exists>ng. nodeGroup g = Some ng \<and> MinCount ng = Some (minSize g)
                \<and> MaxCount ng = Some (maxSize g) \<and> Id ng = Some (id g) \<and> Count ng \<noteq> None
                \<and> clusterId g = cid \<and> Status cl = Some (status g))"
  using assms
proof (induction recs arbitrary: grp h)
  case Nil
  then show ?case by simp
next
  case (Cons ng rest)
  obtain r h2 where rr: "refresh_record e cid cl ng h = (r, h2)" by fastforce
  show ?case
  proof (cases r rule: outcome_sum_cases)
    case (Panic p)
    with Cons.prems rr show ?thesis by simp
  next
    case (Err err)
    with Cons.prems rr show ?thesis by simp
  next
    case (Val og)
    show ?thesis
    proof (cases og)
      case None
      with Cons.prems rr Val
      have "refresh_loop e cid cl rest grp h2 = (Returned (Inr out), h1)" by simp
      from Cons.IH[OF this] refresh_record_None[of e cid cl ng h h2] rr Val None
      show ?thesis by auto
    next
      case (Some g)
      with Cons.prems rr Val
      have "refresh_loop e cid cl rest (grp @ [g]) h2 = (Returned (Inr out), h1)" by simp
      from Cons.IH[OF this] obtain new where
        n: "out = (grp @ [g]) @ new" "map nodeGroup new = map Some (filter eligible rest)"
           "\<forall>g \<in> set new. \<exists>ng. nodeGroup g = Some ng \<and> MinCount ng = Some (minSize g)
              \<and> MaxCount ng = Some (maxSize g) \<and> Id ng = Some (id g) \<and> Count ng \<noteq> None
              \<and> clusterId g = cid \<and> Status cl = Some (status g)"
        by blast
      from refresh_record_Some[of e cid cl ng h g h2] rr Val Some
      have g: "eligible ng" "nodeGroup g = Some ng" "MinCount ng = Some (minSize g)"
        "MaxCount ng = Some (maxSize g)" "Id ng = Some (id g)" "Count ng \<noteq> None"
        "clusterId g = cid" "Status cl = Some (status g)" by auto
      show ?thesis
        by (rule exI[of _ "g # new"]) (use n g in auto)
    qed
  qed
qed

lemma refresh_record_trace:
  assumes "refresh_record e cid cl ng h = (r, h1)"
  shows "h1 = h \<and> (\<forall>err. r \<noteq> Returned (Inl err))
       \<or> h1 = h @ [CallGetClusterNodes cid] \<and>
          (case GetClusterNodesWithResponse e h cid of Inl err \<Rightarrow> r = Returned (Inl err)
           | Inr _ \<Rightarrow> (\<forall>err. r \<noteq> Returned (Inl err)))"
  using assms
  by (auto simp: refresh_record_def split: option.splits if_splits sum.splits)

lemma gateway_error_at_last:
  "gateway_error_at e (h @ [CallGetClusterNodes cid]) (length h) =
     (case GetClusterNodesWithResponse e h cid of Inl err \<Rightarrow> Some err | Inr _ \<Rightarrow> None)"
  by (simp add: gateway_error_at_def)

lemma refresh_loop_trace:
  assumes "refresh_loop e cid cl recs grp h = (r, h')"
  shows "(\<exists>suf. h' = h @ suf) \<and>
         (\<forall>k err. length h \<le> k \<and> k < length h' \<and> gateway_error_at e h' k = Some err
            \<longrightarrow> r = Returned (Inl err))"
  using assms
proof (induction recs arbitrary: grp h)
  case Nil
  then show ?case by auto
next
  case (Cons ng rest)
  let ?c = "CallGetClusterNodes cid"
  obtain r1 h1 where rr: "refresh_record e cid cl ng h = (r1, h1)" by fastforce
  note tr = refresh_record_trace[OF rr]
  show ?case
  proof (cases r1 rule: outcome_sum_cases)
    case (Panic p)
    with Cons.prems rr have stop: "r = Panicked p" "h' = h1" by auto
    from tr Panic have "h1 = h \<or> h1 = h @ [?c] \<and> (\<exists>v. GetClusterNodesWithResponse e h cid = Inr v)"
      by (cases "GetClusterNodesWithResponse e h cid") auto
    then show ?thesis
    proof
      assume "h1 = h"
      with stop show ?thesis by auto
    next
      assume a: "h1 = h @ [?c] \<and> (\<exists>v. GetClusterNodesWithResponse e h cid = Inr v)"
      have "gateway_error_at e h' k \<noteq> Some err" if "length h \<le> k" "k < length h'" for k err
      proof -
        from that stop a have "k = length h" by simp
        with stop a show ?thesis by (auto simp: gateway_error_at_last)
      qed
      with stop a show ?thesis by auto
    qed
  next
    case (Err err1)
    with Cons.prems rr have stop: "r = Returned (Inl err1)" "h' = h1" by auto
    from tr Err have a: "h1 = h @ [?c]" "GetClusterNodesWithResponse e h cid = Inl err1"
      by (cases "GetClusterNodesWithResponse e h cid"; auto)+
    have "err = err1" if "length h \<le> k" "k < length h'" "gateway_error_at e h' k = Some err" for k err
    proof -
      from that stop a have "k = length h" by simp
      with that stop a show ?thesis by (auto simp: gateway_error_at_last)
    qed
    with stop a show ?thesis by auto
  next
    case (Val og)
    obtain grp' where lp: "refresh_loop e cid cl rest grp' h1 = (r, h')"
      using Cons.prems rr Val by (cases og) auto
    from Cons.IH[OF lp] obtain suf where
      suf: "h' = h1 @ suf" and
      ih: "\<forall>k err. length h1 \<le> k \<and> k < length h' \<and> gateway_error_at e h' k = Some err
            \<longrightarrow> r = Returned (Inl err)" by blast
    from tr Val have "h1 = h \<or> h1 = h @ [?c] \<and> (\<exists>v. GetClusterNodesWithResponse e h cid = Inr v)"
      by (cases "GetClusterNodesWithResponse e h cid") auto
    then show ?thesis
    proof
      assume "h1 = h"
      with suf ih show ?thesis by auto
    next
      assume a: "h1 = h @ [?c] \<and> (\<exists>v. GetClusterNodesWithResponse e h cid = Inr v)"
      have here: "gateway_error_at e h' (length h) = None"
        using suf a by (auto simp: gateway_error_at_def nth_append)
      have "r = Returned (Inl err)"
        if "length h \<le> k" "k < length h'" "gateway_error_at e h' k = Some err" for k err
      proof (cases "k = length h")
        case True
        with that here show ?thesis by simp
      next
        case False
        with that a have "length h1 \<le> k" by simp
        with that ih show ?thesis by blast
      qed
      with suf a show ?thesis by auto
    qed
  qed
qed


lemma gateway_error_at_is_gateway:
  "gateway_error_at e tr k = Some err \<Longrightarrow> is_gateway (tr ! k)"
  by (auto simp: gateway_error_at_def is_gateway_def split: call.splits)

lemma GetMetadata_trace:
  assumes "GetMetadata e h = (x, h1)"
  shows "\<exists>suf. h1 = h @ suf \<and> (\<forall>c \<in> set suf. \<not> is_gateway c)"
  using assms
  by (auto simp: GetMetadata_def is_gateway_def split: option.splits sum.splits)

lemma GetNodeLabel_trace:
  assumes "GetNodeLabel e l h = (x, h1)"
  shows "\<exists>suf. h1 = h @ suf \<and> (\<forall>c \<in> set suf. \<not> is_gateway c)"
proof -
  let ?h0 = "h @ [CallInClusterConfig, CallNewForConfig]"
  obtain y h2 where gm: "GetMetadata e ?h0 = (y, h2)" by fastforce
  from GetMetadata_trace[OF gm] obtain suf where
    suf: "h2 = ?h0 @ suf" "\<forall>c \<in> set suf. \<not> is_gateway c" by blast
  have "h1 = h @ [CallInClusterConfig] \<or> h1 = ?h0 \<or> h1 = h2
        \<or> (\<exists>n. h1 = h2 @ [CallNodesGet n])"
    using assms gm
    by (auto simp: GetNodeLabel_def Let_def split: option.splits sum.splits outcome.splits prod.splits)
  then show ?thesis
  proof (elim disjE exE)
    assume "h1 = h @ [CallInClusterConfig]"
    then show ?thesis by (auto simp: is_gateway_def)
  next
    assume "h1 = ?h0"
    then show ?thesis by (auto simp: is_gateway_def)
  next
    assume "h1 = h2"
    with suf show ?thesis
      by (intro exI[of _ "[CallInClusterConfig, CallNewForConfig] @ suf"]) (auto simp: is_gateway_def)
  next
    fix n assume "h1 = h2 @ [CallNodesGet n]"
    with suf show ?thesis
      by (intro exI[of _ "[CallInClusterConfig, CallNewForConfig] @ suf @ [CallNodesGet n]"])
         (auto simp: is_gateway_def)
  qed
qed

lemma no_gateway_error_in_prefix:
  assumes "h1 = h @ suf" "\<forall>c \<in> set suf. \<not> is_gateway c" "length h \<le> k" "k < length h1"
  shows "gateway_error_at e (h1 @ tl0) k = None"
proof -
  from assms have "(h1 @ tl0) ! k = suf ! (k - length h)" "k - length h < length suf"
    by (auto simp: nth_append)
  with assms(2) have "\<not> is_gateway ((h1 @ tl0) ! k)" by (metis nth_mem)
  then show ?thesis
    using gateway_error_at_is_gateway[of e "h1 @ tl0" k] by (cases "gateway_error_at e (h1 @ tl0) k") auto
qed

lemma Refresh_stages:
  assumes "Refresh e m h = (r, m', h')"
  obtains
    (label_panic) p where "GetNodeLabel e clusterIdLabel h = (Panicked p, h')" "r = Panicked p" "m' = m"
  | (label_error) err where "GetNodeLabel e clusterIdLabel h = (Returned (Inl err), h')"
      "r = Returned (Some err)" "m' = m"
  | (atoi_error) s err where "GetNodeLabel e clusterIdLabel h = (Returned (Inr s), h')"
      "Atoi s = Inl err" "r = Returned (Some err)" "m' = m"
  | (list_error) s h1 cid err where "GetNodeLabel e clusterIdLabel h = (Returned (Inr s), h1)"
      "Atoi s = Inr cid" "ListNodeGroupsWithResponse e h1 cid = Inl err"
      "h' = h1 @ [CallListNodeGroups cid]" "r = Returned (Some err)" "m' = m"
  | (cluster_error) s h1 cid recs err where "GetNodeLabel e clusterIdLabel h = (Returned (Inr s), h1)"
      "Atoi s = Inr cid" "ListNodeGroupsWithResponse e h1 cid = Inr recs"
      "GetClusterWithResponse e (h1 @ [CallListNodeGroups cid]) cid = Inl err"
      "h' = h1 @ [CallListNodeGroups cid, CallGetCluster cid]" "r = Returned (Some err)" "m' = m"
  | (nil_panic) s h1 cid recs cl where "GetNodeLabel e clusterIdLabel h = (Returned (Inr s), h1)"
      "Atoi s = Inr cid" "ListNodeGroupsWithResponse e h1 cid = Inr recs"
      "GetClusterWithResponse e (h1 @ [CallListNodeGroups cid]) cid = Inr cl"
      "cl = None \<or> (\<exists>c. cl = Some c \<and> (IsReconciling c = None \<or> IsReconciling c = Some False \<and> recs = None))"
      "h' = h1 @ [CallListNodeGroups cid, CallGetCluster cid]" "r = Panicked NilDereference" "m' = m"
  | (reconciling) s h1 cid recs cl where "GetNodeLabel e clusterIdLabel h = (Returned (Inr s), h1)"
      "Atoi s = Inr cid" "ListNodeGroupsWithResponse e h1 cid = Inr recs"
      "GetClusterWithResponse e (h1 @ [CallListNodeGroups cid]) cid = Inr (Some cl)"
      "IsReconciling cl = Some True"
      "h' = h1 @ [CallListNodeGroups cid, CallGetCluster cid]" "r = Returned (Some ClusterIsReconciling)" "m' = m"
  | (loop) s h1 cid recs cl lr where "GetNodeLabel e clusterIdLabel h = (Returned (Inr s), h1)"
      "Atoi s = Inr cid" "ListNodeGroupsWithResponse e h1 cid = Inr (Some recs)"
      "GetClusterWithResponse e (h1 @ [CallListNodeGroups cid]) cid = Inr (Some cl)"
      "IsReconciling cl = Some False"
      "refresh_loop e cid cl recs [] (h1 @ [CallListNodeGroups cid, CallGetCluster cid]) = (lr, h')"
      "case lr of Panicked p \<Rightarrow> r = Panicked p \<and> m' = m
         | Returned (Inl err) \<Rightarrow> r = Returned (Some err) \<and> m' = m
         | Returned (Inr out) \<Rightarrow> r = Returned None \<and> m' = m \<lparr> nodeGroups := out \<rparr>"
proof -
  obtain lr h1 where gl: "GetNodeLabel e clusterIdLabel h = (lr, h1)" by fastforce
  show ?thesis
  proof (cases lr rule: outcome_sum_cases)
    case (Panic p)
    with assms gl show ?thesis by (intro label_panic[of p]) (auto simp: Refresh_def)
  next
    case (Err err)
    with assms gl show ?thesis by (intro label_error[of err]) (auto simp: Refresh_def)
  next
    case (Val s)
    note gl' = gl[unfolded Val]
    show ?thesis
    proof (cases "Atoi s")
      case (Inl err)
      with assms gl' show ?thesis by (intro atoi_error[of s err]) (auto simp: Refresh_def)
    next
      case (Inr cid)
      note at = Inr
      let ?h2 = "h1 @ [CallListNodeGroups cid]"
      let ?h3 = "h1 @ [CallListNodeGroups cid, CallGetCluster cid]"
      show ?thesis
      proof (cases "ListNodeGroupsWithResponse e h1 cid")
        case (Inl err)
        with assms gl' at show ?thesis
          by (intro list_error[of s h1 cid err]) (auto simp: Refresh_def)
      next
        case (Inr recs)
        note ln = Inr
        show ?thesis
        proof (cases "GetClusterWithResponse e ?h2 cid")
          case (Inl err)
          with assms gl' at ln show ?thesis
            by (intro cluster_error[of s h1 cid recs err]) (auto simp: Refresh_def)
        next
          case (Inr clp)
          note gc = Inr
          show ?thesis
          proof (cases clp)
            case None
            with assms gl' at ln gc show ?thesis
              by (intro nil_panic[of s h1 cid recs clp]) (auto simp: Refresh_def)
          next
            case (Some cl)
            note cl = Some
            show ?thesis
            proof (cases "IsReconciling cl")
              case None
              with assms gl' at ln gc cl show ?thesis
                by (intro nil_panic[of s h1 cid recs clp]) (auto simp: Refresh_def)
            next
              case (Some b)
              note rc = Some
              show ?thesis
              proof (cases b)
                case True
                with assms gl' at ln gc cl rc show ?thesis
                  by (intro reconciling[of s h1 cid recs cl]) (auto simp: Refresh_def)
              next
                case False
                note nb = False
                show ?thesis
                proof (cases recs)
                  case None
                  with assms gl' at ln gc cl rc nb show ?thesis
                    by (intro nil_panic[of s h1 cid recs clp]) (auto simp: Refresh_def)
                next
                  case (Some records)
                  obtain lpr h4 where lp: "refresh_loop e cid cl records [] ?h3 = (lpr, h4)" by fastforce
                  have "h4 = h' \<and> (case lpr of Panicked p \<Rightarrow> r = Panicked p \<and> m' = m
                           | Returned (Inl err) \<Rightarrow> r = Returned (Some err) \<and> m' = m
                           | Returned (Inr out) \<Rightarrow> r = Returned None \<and> m' = m \<lparr> nodeGroups := out \<rparr>)"
                    using assms gl' at ln gc cl rc nb Some lp
                    by (cases lpr rule: outcome_sum_cases) (auto simp: Refresh_def)
                  with gl' at ln gc cl rc nb Some lp show ?thesis
                    by (intro loop[of s h1 cid records cl lpr]) auto
                qed
              qed
            qed
          qed
        qed
      qed
    qed
  qed
qed


lemma gateway_error_at_list:
  "gateway_error_at e (h1 @ CallListNodeGroups cid # rest) (length h1) =
     (case ListNodeGroupsWithResponse e h1 cid of Inl err \<Rightarrow> Some err | Inr _ \<Rightarrow> None)"
  by (simp add: gateway_error_at_def)

lemma gateway_error_at_cluster:
  "gateway_error_at e (h1 @ CallListNodeGroups cid # CallGetCluster cid # rest) (Suc (length h1)) =
     (case GetClusterWithResponse e (h1 @ [CallListNodeGroups cid]) cid of Inl err \<Rightarrow> Some err | Inr _ \<Rightarrow> None)"
  by (simp add: gateway_error_at_def nth_append)

lemma Refresh_gateway_error:
  assumes R: "Refresh e m h = (r, m', h')"
    and k: "length h \<le> k" "k < length h'" and g: "gateway_error_at e h' k = Some err"
  shows "r = Returned (Some err)"
proof -
  have pre: False
    if "GetNodeLabel e clusterIdLabel h = (x, h1)" "h' = h1 @ tl0" "k < length h1" for x h1 tl0
  proof -
    from GetNodeLabel_trace[OF that(1)] obtain suf where
      "h1 = h @ suf" "\<forall>c \<in> set suf. \<not> is_gateway c" by blast
    from no_gateway_error_in_prefix[OF this k(1) that(3), of e tl0] g that(2) show False by simp
  qed
  from R show ?thesis
  proof (cases rule: Refresh_stages)
    case (label_panic p)
    from pre[OF label_panic(1), of "[]"] k show ?thesis by simp
  next
    case (label_error err1)
    from pre[OF label_error(1), of "[]"] k show ?thesis by simp
  next
    case (atoi_error s err1)
    from pre[OF atoi_error(1), of "[]"] k show ?thesis by simp
  next
    case (list_error s h1 cid err1)
    from pre[OF list_error(1), of "[CallListNodeGroups cid]"] list_error(4) k
    have "k = length h1" by (cases "k < length h1") auto
    with g list_error show ?thesis by (simp add: gateway_error_at_list)
  next
    case (cluster_error s h1 cid recs err1)
    from pre[OF cluster_error(1), of "[CallListNodeGroups cid, CallGetCluster cid]"] cluster_error(5) k
    have "k = length h1 \<or> k = Suc (length h1)" by (cases "k < length h1") auto
    with g cluster_error show ?thesis
      by (auto simp: gateway_error_at_list gateway_error_at_cluster)
  next
    case (nil_panic s h1 cid recs cl)
    from pre[OF nil_panic(1), of "[CallListNodeGroups cid, CallGetCluster cid]"] nil_panic(6) k
    have "k = length h1 \<or> k = Suc (length h1)" by (cases "k < length h1") auto
    with g nil_panic show ?thesis
      by (auto simp: gateway_error_at_list gateway_error_at_cluster)
  next
    case (reconciling s h1 cid recs cl)
    from pre[OF reconciling(1), of "[CallListNodeGroups cid, CallGetCluster cid]"] reconciling(6) k
    have "k = length h1 \<or> k = Suc (length h1)" by (cases "k < length h1") auto
    with g reconciling show ?thesis
      by (auto simp: gateway_error_at_list gateway_error_at_cluster)
  next
    case (loop s h1 cid recs cl lr)
    let ?h3 = "h1 @ [CallListNodeGroups cid, CallGetCluster cid]"
    from refresh_loop_trace[OF loop(6)] obtain suf where
      suf: "h' = ?h3 @ suf" and
      tr: "\<forall>k err. length ?h3 \<le> k \<and> k < length h' \<and> gateway_error_at e h' k = Some err
             \<longrightarrow> lr = Returned (Inl err)" by blast
    from pre[OF loop(1), of "[CallListNodeGroups cid, CallGetCluster cid] @ suf"] suf
    have "\<not> k < length h1" by auto
    then consider "k = length h1" | "k = Suc (length h1)" | "length ?h3 \<le> k" by fastforce
    then show ?thesis
    proof cases
      case 1
      with g suf loop show ?thesis by (simp add: gateway_error_at_list)
    next
      case 2
      with g suf loop show ?thesis by (simp add: gateway_error_at_cluster)
    next
      case 3
      with tr k g have "lr = Returned (Inl err)" by blast
      with loop(7) show ?thesis by simp
    qed
  qed
qed

lemma Refresh_success_stages:
  assumes "Refresh e m h = (Returned None, m', h')"
  shows "\<exists>recs cid cl h2 out.
           listed_records e h = Some recs
         \<and> refresh_loop e cid cl recs [] h2 = (Returned (Inr out), h')
         \<and> m' = m \<lparr> nodeGroups := out \<rparr>"
  using assms
proof (cases rule: Refresh_stages)
  case (loop s h1 cid recs cl lr)
  from loop(7) obtain out where "lr = Returned (Inr out)" "m' = m \<lparr> nodeGroups := out \<rparr>"
    by (cases lr rule: outcome_sum_cases) auto
  moreover have "listed_records e h = Some recs"
    using loop(1-3) by (simp add: listed_records_def)
  ultimately show ?thesis using loop(6) by blast
qed simp_all

subsection \<open>What a successful refresh publishes\<close>

text \<open>
  C6. Every node group in the snapshot published by a successful \<open>Refresh\<close> has role
  \<open>worker\<close> and \<open>maxCount > minCount\<close>, and the groups with another role or with
  \<open>maxCount \<le> minCount\<close> are left out: the published handles are, in order, those of
  the eligible records among the records listed by the API, one handle for each.
\<close>

theorem Refresh_publishes_eligible_workers:
  assumes "Refresh e m h = (Returned None, m', h')"
  shows "\<exists>recs. listed_records e h = Some recs
           \<and> map nodeGroup (nodeGroups m') = map Some (filter eligible recs)
           \<and> (\<forall>g \<in> set (nodeGroups m'). \<exists>ng. nodeGroup g = Some ng \<and> ng \<in> set recs
                \<and> Role ng = Some ''worker'' \<and> MinCount ng = Some (minSize g)
                \<and> MaxCount ng = Some (maxSize g) \<and> minSize g <s maxSize g)"
proof -
  from Refresh_success_stages[OF assms] obtain recs cid cl h2 out where
    st: "listed_records e h = Some recs"
        "refresh_loop e cid cl recs [] h2 = (Returned (Inr out), h')"
        "m' = m \<lparr> nodeGroups := out \<rparr>"
    by blast
  from refresh_loop_published[OF st(2)]
  have pub: "map nodeGroup out = map Some (filter eligible recs)" by auto
  have "\<exists>ng. nodeGroup g = Some ng \<and> ng \<in> set recs
                \<and> Role ng = Some ''worker'' \<and> MinCount ng = Some (minSize g)
                \<and> MaxCount ng = Some (maxSize g) \<and> minSize g <s maxSize g"
    if "g \<in> set out" for g
  proof -
    from that have "nodeGroup g \<in> set (map Some (filter eligible recs))"
      unfolding pub[symmetric] by simp
    then obtain ng where ng: "nodeGroup g = Some ng" "ng \<in> set recs" "eligible ng" by auto
    from refresh_loop_published[OF st(2)] that ng(1)
    have "MinCount ng = Some (minSize g)" "MaxCount ng = Some (maxSize g)" by auto
    with ng show ?thesis by (auto simp: eligible_def)
  qed
  with st(1,3) pub show ?thesis by auto
qed

theorem Refresh_publishes_eligible_workers_witness:
  "Refresh (sample_env sample_records active_cluster) \<lparr> nodeGroups = [] \<rparr> []
     = (Returned None, \<lparr> nodeGroups = [published_handle 10 1 5 2] \<rparr>,
        refresh_trace @ [CallGetClusterNodes 7])
   \<and> listed_records (sample_env sample_records active_cluster) [] = Some sample_records
   \<and> filter eligible sample_records = [sample_record 10 ''worker'' 1 5 2]
   \<and> map nodeGroup [published_handle 10 1 5 2] = map Some (filter eligible sample_records)"
proof -
  have run: "Refresh (sample_env sample_records active_cluster) \<lparr> nodeGroups = [] \<rparr> []
     = (Returned None, \<lparr> nodeGroups = [published_handle 10 1 5 2] \<rparr>,
        refresh_trace @ [CallGetClusterNodes 7])"
    by (simp add: model_defs word_sle_eq)
  have recs: "listed_records (sample_env sample_records active_cluster) [] = Some sample_records"
    by (simp add: model_defs)
  have el: "filter eligible sample_records = [sample_record 10 ''worker'' 1 5 2]"
    by (simp add: model_defs word_sless_alt)
  from Refresh_publishes_eligible_workers[OF run] recs
  have "map nodeGroup [published_handle 10 1 5 2] = map Some (filter eligible sample_records)"
    by auto
  with run recs el show ?thesis by blast
qed

text \<open>
  C1, as stated, fails: \<open>Refresh\<close> never compares a record's count with its bounds. When
  the API lists a worker group with bounds 1 and 5 and count 9, the refresh succeeds and
  publishes the group with count 9 above its maximum 5.
\<close>

theorem Refresh_count_within_bounds_counterexample:
  "Refresh (sample_env [sample_record 10 ''worker'' 1 5 9] active_cluster) \<lparr> nodeGroups = [] \<rparr> []
     = (Returned None, \<lparr> nodeGroups = [published_handle 10 1 5 9] \<rparr>,
        refresh_trace @ [CallGetClusterNodes 7])
   \<and> TargetSize (published_handle 10 1 5 9) = Returned (9, None)
   \<and> MaxSize (published_handle 10 1 5 9) = 5
   \<and> \<not> ((9 :: go_int) \<le>s 5)"
  by (simp add: model_defs word_sle_eq)

text \<open>
  C1, amended. For every node group published by a successful \<open>Refresh\<close>,
  \<open>MinSize() < MaxSize()\<close>, the two bounds are the \<open>minCount\<close> and \<open>maxCount\<close> of the
  group's record among the listed records, and \<open>TargetSize()\<close> is the count that the API
  reported in that record, whatever it is.
\<close>

theorem Refresh_published_bounds_and_count:
  assumes "Refresh e m h = (Returned None, m', h')" and "g \<in> set (nodeGroups m')"
  shows "MinSize g <s MaxSize g
       \<and> (\<exists>recs ng c. listed_records e h = Some recs \<and> ng \<in> set recs \<and> nodeGroup g = Some ng
            \<and> MinCount ng = Some (MinSize g) \<and> MaxCount ng = Some (MaxSize g)
            \<and> Count ng = Some c \<and> TargetSize g = Returned (c, None))"
proof -
  from Refresh_success_stages[OF assms(1)] obtain recs cid cl h2 out where
    st: "listed_records e h = Some recs"
        "refresh_loop e cid cl recs [] h2 = (Returned (Inr out), h')"
        "m' = m \<lparr> nodeGroups := out \<rparr>"
    by blast
  from refresh_loop_published[OF st(2)] assms(2) st(3)
  obtain ng where ng: "nodeGroup g = Some ng" "MinCount ng = Some (minSize g)"
      "MaxCount ng = Some (maxSize g)" "Count ng \<noteq> None"
      and pub: "map nodeGroup out = map Some (filter eligible recs)"
    by auto
  from assms(2) st(3) have "nodeGroup g \<in> set (map Some (filter eligible recs))"
    unfolding pub[symmetric] by simp
  with ng(1) have el: "ng \<in> set recs" "eligible ng" by auto
  from ng(4) obtain c where c: "Count ng = Some c" by auto
  from el(2) ng(2,3) have "MinSize g <s MaxSize g"
    by (simp add: eligible_def MinSize_def MaxSize_def)
  moreover have "TargetSize g = Returned (c, None)"
    using ng(1) c by (simp add: TargetSize_def)
  ultimately show ?thesis
    using st(1) el(1) ng c by (auto simp: MinSize_def MaxSize_def)
qed

theorem Refresh_published_bounds_and_count_witness:
  "Refresh (sample_env sample_records active_cluster) \<lparr> nodeGroups = [] \<rparr> []
     = (Returned None, \<lparr> nodeGroups = [published_handle 10 1 5 2] \<rparr>,
        refresh_trace @ [CallGetClusterNodes 7])
   \<and> published_handle 10 1 5 2 \<in> set (nodeGroups \<lparr> nodeGroups = [published_handle 10 1 5 2] \<rparr>)
   \<and> MinSize (published_handle 10 1 5 2) <s MaxSize (published_handle 10 1 5 2)
   \<and> TargetSize (published_handle 10 1 5 2) = Returned (2, None)"
proof -
  have run: "Refresh (sample_env sample_records active_cluster) \<lparr> nodeGroups = [] \<rparr> []
     = (Returned None, \<lparr> nodeGroups = [published_handle 10 1 5 2] \<rparr>,
        refresh_trace @ [CallGetClusterNodes 7])"
    by (simp add: model_defs word_sle_eq)
  have mem: "published_handle 10 1 5 2 \<in> set (nodeGroups \<lparr> nodeGroups = [published_handle 10 1 5 2] \<rparr>)"
    by simp
  have ts: "TargetSize (published_handle 10 1 5 2) = Returned (2, None)"
    by (simp add: model_defs)
  from Refresh_published_bounds_and_count[OF run mem]
  have "MinSize (published_handle 10 1 5 2) <s MaxSize (published_handle 10 1 5 2)" by blast
  with run mem ts show ?thesis by blast
qed

subsection \<open>A refresh that fails keeps the snapshot\<close>

text \<open>
  Whenever \<open>Refresh\<close> does not return nil, be it an error or a panic, the manager's
  snapshot is the one it had before. And \<open>Refresh\<close> returns a non-nil error, the one at
  hand, when the label resolution returns an error, when the label is no integer, when
  listing the node groups or getting the cluster returns an error, when any call of the
  gateway in the trace of the refresh was answered with an error, and when the cluster
  reports that it is reconciling.
\<close>

lemma Refresh_returned_failures_retain_snapshot:
  assumes "Refresh e m h = (r, m', h')"
  shows "(r \<noteq> Returned None \<longrightarrow> m' = m)
       \<and> (\<forall>err h1. GetNodeLabel e clusterIdLabel h = (Returned (Inl err), h1)
            \<longrightarrow> r = Returned (Some err))
       \<and> (\<forall>s h1 err. GetNodeLabel e clusterIdLabel h = (Returned (Inr s), h1) \<and> Atoi s = Inl err
            \<longrightarrow> r = Returned (Some err))
       \<and> (\<forall>k err. length h \<le> k \<and> k < length h' \<and> gateway_error_at e h' k = Some err
            \<longrightarrow> r = Returned (Some err))
       \<and> (\<forall>s h1 cid recs cl.
             GetNodeLabel e clusterIdLabel h = (Returned (Inr s), h1) \<and> Atoi s = Inr cid
             \<and> ListNodeGroupsWithResponse e h1 cid = Inr recs
             \<and> GetClusterWithResponse e (h1 @ [CallListNodeGroups cid]) cid = Inr (Some cl)
             \<and> IsReconciling cl = Some True
            \<longrightarrow> r = Returned (Some ClusterIsReconciling))
       \<and> (\<forall>s h1 cid err.
             GetNodeLabel e clusterIdLabel h = (Returned (Inr s), h1) \<and> Atoi s = Inr cid
             \<and> ListNodeGroupsWithResponse e h1 cid = Inl err
            \<longrightarrow> r = Returned (Some err) \<and> h' = h1 @ [CallListNodeGroups cid])
       \<and> (\<forall>s h1 cid recs err.
             GetNodeLabel e clusterIdLabel h = (Returned (Inr s), h1) \<and> Atoi s = Inr cid
             \<and> ListNodeGroupsWithResponse e h1 cid = Inr recs
             \<and> GetClusterWithResponse e (h1 @ [CallListNodeGroups cid]) cid = Inl err
            \<longrightarrow> r = Returned (Some err)
                \<and> h' = h1 @ [CallListNodeGroups cid, CallGetCluster cid])"
proof (intro conjI allI impI)
  assume "r \<noteq> Returned None"
  with assms show "m' = m"
    by (cases rule: Refresh_stages) (auto split: outcome.splits sum.splits)
next
  fix err h1 assume "GetNodeLabel e clusterIdLabel h = (Returned (Inl err), h1)"
  with assms show "r = Returned (Some err)" by (simp add: Refresh_def)
next
  fix s h1 err assume "GetNodeLabel e clusterIdLabel h = (Returned (Inr s), h1) \<and> Atoi s = Inl err"
  with assms show "r = Returned (Some err)" by (simp add: Refresh_def)
next
  fix k err assume "length h \<le> k \<and> k < length h' \<and> gateway_error_at e h' k = Some err"
  with Refresh_gateway_error[OF assms] show "r = Returned (Some err)" by blast
next
  fix s h1 cid recs cl
  assume "GetNodeLabel e clusterIdLabel h = (Returned (Inr s), h1) \<and> Atoi s = Inr cid
             \<and> ListNodeGroupsWithResponse e h1 cid = Inr recs
             \<and> GetClusterWithResponse e (h1 @ [CallListNodeGroups cid]) cid = Inr (Some cl)
             \<and> IsReconciling cl = Some True"
  with assms show "r = Returned (Some ClusterIsReconciling)" by (simp add: Refresh_def)
next
  fix s h1 cid err
  assume a: "GetNodeLabel e clusterIdLabel h = (Returned (Inr s), h1) \<and> Atoi s = Inr cid
             \<and> ListNodeGroupsWithResponse e h1 cid = Inl err"
  with assms show "r = Returned (Some err)" by (simp add: Refresh_def)
  from a assms show "h' = h1 @ [CallListNodeGroups cid]" by (simp add: Refresh_def)
next
  fix s h1 cid recs err
  assume a: "GetNodeLabel e clusterIdLabel h = (Returned (Inr s), h1) \<and> Atoi s = Inr cid
             \<and> ListNodeGroupsWithResponse e h1 cid = Inr recs
             \<and> GetClusterWithResponse e (h1 @ [CallListNodeGroups cid]) cid = Inl err"
  with assms show "r = Returned (Some err)" by (simp add: Refresh_def)
  from a assms show "h' = h1 @ [CallListNodeGroups cid, CallGetCluster cid]"
    by (simp add: Refresh_def)
qed

lemma Refresh_returned_failures_retain_snapshot_example:
  "Refresh (sample_env sample_records reconciling_cluster) \<lparr> nodeGroups = [published_handle 10 1 5 2] \<rparr> []
     = (Returned (Some ClusterIsReconciling), \<lparr> nodeGroups = [published_handle 10 1 5 2] \<rparr>, refresh_trace)
   \<and> Refresh failing_nodes_env
        \<lparr> nodeGroups = [published_handle 10 1 5 2] \<rparr> []
     = (Returned (Some (External ''503'')), \<lparr> nodeGroups = [published_handle 10 1 5 2] \<rparr>,
        refresh_trace @ [CallGetClusterNodes 7])
   \<and> gateway_error_at failing_nodes_env
        (refresh_trace @ [CallGetClusterNodes 7]) 7 = Some (External ''503'')
   \<and> Refresh unlabelled_local_env \<lparr> nodeGroups = [published_handle 10 1 5 2] \<rparr> []
     = (Returned (Some (LabelNotFound clusterIdLabel ''node-a'')),
        \<lparr> nodeGroups = [published_handle 10 1 5 2] \<rparr>,
        [CallInClusterConfig, CallNewForConfig, CallHttpGetMetadata, CallReadBody, CallNodesGet ''node-a''])
   \<and> Refresh bad_label_env \<lparr> nodeGroups = [published_handle 10 1 5 2] \<rparr> []
     = (Returned (Some (ErrSyntax ''seven'')), \<lparr> nodeGroups = [published_handle 10 1 5 2] \<rparr>,
        [CallInClusterConfig, CallNewForConfig, CallHttpGetMetadata, CallReadBody, CallNodesGet ''node-a''])"
proof -
  let ?m = "\<lparr> nodeGroups = [published_handle 10 1 5 2] \<rparr>"
  let ?e = "failing_nodes_env"
  obtain r1 m1 h1 where run1:
    "Refresh (sample_env sample_records reconciling_cluster) ?m [] = (r1, m1, h1)"
    by (metis prod_cases3)
  have label: "GetNodeLabel (sample_env sample_records reconciling_cluster) clusterIdLabel []
                 = (Returned (Inr ''7''), [CallInClusterConfig, CallNewForConfig, CallHttpGetMetadata,
                      CallReadBody, CallNodesGet ''node-a''])"
    by (simp add: model_defs)
  have "r1 = Returned (Some ClusterIsReconciling)"
    using Refresh_returned_failures_retain_snapshot[OF run1] label
    by (simp add: model_defs)
  moreover from this Refresh_returned_failures_retain_snapshot[OF run1] have "m1 = ?m" by simp
  moreover have "h1 = refresh_trace" using run1 by (simp add: model_defs)
  ultimately have a: "Refresh (sample_env sample_records reconciling_cluster) ?m []
     = (Returned (Some ClusterIsReconciling), ?m, refresh_trace)"
    using run1 by simp
  obtain r2 m2 h2 where run2: "Refresh ?e ?m [] = (r2, m2, h2)" by (metis prod_cases3)
  have tr: "h2 = refresh_trace @ [CallGetClusterNodes 7]"
    using run2 by (simp add: model_defs word_sle_eq)
  have g: "gateway_error_at ?e (refresh_trace @ [CallGetClusterNodes 7]) 7 = Some (External ''503'')"
    by (simp add: gateway_error_at_def model_defs)
  have "r2 = Returned (Some (External ''503''))"
    using Refresh_returned_failures_retain_snapshot[OF run2, THEN conjunct2, THEN conjunct2, THEN conjunct2,
        THEN conjunct1, rule_format, of 7 "External ''503''"] g tr
    by (simp add: refresh_trace_def)
  moreover from this Refresh_returned_failures_retain_snapshot[OF run2] have "m2 = ?m" by simp
  ultimately have b: "Refresh ?e ?m [] = (Returned (Some (External ''503'')), ?m,
        refresh_trace @ [CallGetClusterNodes 7])"
    using run2 tr by simp
  obtain r3 m3 h3 where run3: "Refresh unlabelled_local_env ?m [] = (r3, m3, h3)"
    by (metis prod_cases3)
  have l3: "GetNodeLabel unlabelled_local_env clusterIdLabel []
              = (Returned (Inl (LabelNotFound clusterIdLabel ''node-a'')),
                 [CallInClusterConfig, CallNewForConfig, CallHttpGetMetadata, CallReadBody,
                  CallNodesGet ''node-a''])"
    by (simp add: GetNodeLabel_def GetMetadata_def unlabelled_local_env_def sample_env_def
          sample_payload_def Let_def)
  have r3: "r3 = Returned (Some (LabelNotFound clusterIdLabel ''node-a''))"
    using Refresh_returned_failures_retain_snapshot[OF run3, THEN conjunct2, THEN conjunct1,
        rule_format, OF l3] .
  with Refresh_returned_failures_retain_snapshot[OF run3] have "m3 = ?m" by simp
  moreover have "h3 = [CallInClusterConfig, CallNewForConfig, CallHttpGetMetadata, CallReadBody,
                  CallNodesGet ''node-a'']"
    using run3 l3 by (simp add: Refresh_def)
  ultimately have c: "Refresh unlabelled_local_env ?m []
     = (Returned (Some (LabelNotFound clusterIdLabel ''node-a'')), ?m,
        [CallInClusterConfig, CallNewForConfig, CallHttpGetMetadata, CallReadBody, CallNodesGet ''node-a''])"
    using run3 r3 by simp
  obtain r4 m4 h4 where run4: "Refresh bad_label_env ?m [] = (r4, m4, h4)"
    by (metis prod_cases3)
  have l4: "GetNodeLabel bad_label_env clusterIdLabel []
              = (Returned (Inr ''seven''),
                 [CallInClusterConfig, CallNewForConfig, CallHttpGetMetadata, CallReadBody,
                  CallNodesGet ''node-a''])"
    by (simp add: GetNodeLabel_def GetMetadata_def bad_label_env_def sample_env_def
          sample_payload_def Let_def clusterIdLabel_def)
  have at: "Atoi ''seven'' = Inl (ErrSyntax ''seven'')"
    by (simp add: Atoi_def is_digit_def)
  have r4: "r4 = Returned (Some (ErrSyntax ''seven''))"
    using Refresh_returned_failures_retain_snapshot[OF run4, THEN conjunct2, THEN conjunct2,
        THEN conjunct1, rule_format, OF conjI[OF l4 at]] .
  with Refresh_returned_failures_retain_snapshot[OF run4] have "m4 = ?m" by simp
  moreover have "h4 = [CallInClusterConfig, CallNewForConfig, CallHttpGetMetadata, CallReadBody,
                  CallNodesGet ''node-a'']"
    using run4 l4 at by (simp add: Refresh_def)
  ultimately have d: "Refresh bad_label_env ?m []
     = (Returned (Some (ErrSyntax ''seven'')), ?m,
        [CallInClusterConfig, CallNewForConfig, CallHttpGetMetadata, CallReadBody, CallNodesGet ''node-a''])"
    using run4 r4 by simp
  from a b g c d show ?thesis by blast
qed

text \<open>
  C7 does not hold of the code on one of the paths it names. When the cluster-id label
  cannot be resolved because the metadata endpoint cannot be reached, \<open>Refresh\<close> returns
  no error: the panic of \<open>GetMetadata\<close> unwinds it after three calls. The snapshot
  published before is left as it was.
\<close>

theorem Refresh_label_resolution_failure_panics:
  "Refresh failing_metadata_env \<lparr> nodeGroups = [published_handle 10 1 5 2] \<rparr> []
     = (Panicked (FailedToGETMetadata (External ''connection refused'')),
        \<lparr> nodeGroups = [published_handle 10 1 5 2] \<rparr>,
        [CallInClusterConfig, CallNewForConfig, CallHttpGetMetadata])"
  by (simp add: model_defs)

subsection \<open>Auxiliary facts on the retry loop and on the scale operations\<close>

lemma round_trips_simps [simp]:
  "round_trips (h @ [RoundTrip]) = Suc (round_trips h)"
  "round_trips (h @ [RoundTrip, Sleep a]) = Suc (round_trips h)"
  "round_trips (h @ [RoundTrip, BodyClose, Sleep a]) = Suc (round_trips h)"
  by (simp_all add: round_trips_def)

lemma sle_succ:
  fixes a b :: go_int
  assumes "a <s b"
  shows "a + 1 \<le>s b" and "nat (sint b - sint a) = Suc (nat (sint b - sint (a + 1)))"
  using assms sint_succ_below[OF assms] by (auto simp: word_sle_eq word_sless_alt)

lemma sle_not_sless_eq:
  fixes a b :: go_int
  assumes "a \<le>s b" "\<not> a <s b"
  shows "a = b"
  using assms by (auto simp: word_sle_eq word_sless_alt intro: signed_word_eqI)

lemma Do_from_exhausts:
  assumes "\<forall>h. ctxErr t h = None" "\<forall>h. retryable_outcome rc (clientDo t h)" "attempt \<le>s MaxRetries rc"
  shows "\<exists>h'. snd (Do_from rc t attempt le lr h) = h' @ [RoundTrip]
          \<and> fst (Do_from rc t attempt le lr h) = final_result (clientDo t h')
          \<and> round_trips (h' @ [RoundTrip]) = round_trips h + nat (sint (MaxRetries rc) - sint attempt) + 1"
  using assms
proof (induction rc t attempt le lr h rule: Do_from.induct)
  case (1 rc t attempt lastErr lastResp h)
  have ctx: "ctxErr t h = None" using "1.prems" by simp
  have retry: "retryable_outcome rc (clientDo t h)" using "1.prems" by simp
  show ?case
  proof (cases "attempt <s MaxRetries rc")
    case True
    note lt = True
    show ?thesis
    proof (cases "clientDo t h")
      case (Inl err)
      have eq: "Do_from rc t attempt lastErr lastResp h
                 = Do_from rc t (attempt + 1) (Some err) lastResp (h @ [RoundTrip, Sleep attempt])"
        using "1.prems"(3) ctx Inl lt by (subst Do_from.simps) simp
      from "1.IH"(1)[OF "1.prems"(3) ctx Inl lt "1.prems"(1,2) sle_succ(1)[OF lt]]
      show ?thesis unfolding eq using sle_succ(2)[OF lt] by auto
    next
      case (Inr resp)
      with retry have r: "isRetryableError rc (StatusCode resp)" by (simp add: retryable_outcome_def)
      have eq: "Do_from rc t attempt lastErr lastResp h
                 = Do_from rc t (attempt + 1) lastErr (Some resp) (h @ [RoundTrip, BodyClose, Sleep attempt])"
        using "1.prems"(3) ctx Inr lt r by (subst Do_from.simps) simp
      from "1.IH"(2)[OF "1.prems"(3) ctx Inr r lt "1.prems"(1,2) sle_succ(1)[OF lt]]
      show ?thesis unfolding eq using sle_succ(2)[OF lt] by auto
    qed
  next
    case False
    with "1.prems"(3) have last: "attempt = MaxRetries rc" by (rule sle_not_sless_eq)
    have "Do_from rc t attempt lastErr lastResp h = (final_result (clientDo t h), h @ [RoundTrip])"
      using "1.prems"(3) ctx False retry
      by (subst Do_from.simps) (auto simp: final_result_def retryable_outcome_def split: sum.splits)
    with last show ?thesis by auto
  qed
qed

lemma Do_from_run:
  assumes "attempt \<le>s MaxRetries rc"
  shows "(\<exists>h' cerr. Do_from rc t attempt le lr h = ((None, Some cerr), h')
            \<and> ctxErr t h' = Some cerr
            \<and> round_trips h' \<le> round_trips h + nat (sint (MaxRetries rc) - sint attempt))
       \<or> (\<exists>h'. Do_from rc t attempt le lr h = (final_result (clientDo t h'), h' @ [RoundTrip])
            \<and> ctxErr t h' = None
            \<and> round_trips h' \<le> round_trips h + nat (sint (MaxRetries rc) - sint attempt))"
  using assms
proof (induction rc t attempt le lr h rule: Do_from.induct)
  case (1 rc t attempt lastErr lastResp h)
  note le = "1.prems"
  show ?case
  proof (cases "ctxErr t h")
    case (Some cerr)
    have "Do_from rc t attempt lastErr lastResp h = ((None, Some cerr), h)"
      using le Some by (subst Do_from.simps) simp
    with Some show ?thesis by auto
  next
    case None
    note ctx = None
    show ?thesis
    proof (cases "clientDo t h")
      case (Inl err)
      show ?thesis
      proof (cases "attempt <s MaxRetries rc")
        case True
        have eq: "Do_from rc t attempt lastErr lastResp h
                   = Do_from rc t (attempt + 1) (Some err) lastResp (h @ [RoundTrip, Sleep attempt])"
          using le ctx Inl True by (subst Do_from.simps) simp
        from "1.IH"(1)[OF le ctx Inl True sle_succ(1)[OF True]]
        show ?thesis unfolding eq using sle_succ(2)[OF True] by auto
      next
        case False
        have "Do_from rc t attempt lastErr lastResp h = (final_result (clientDo t h), h @ [RoundTrip])"
          using le ctx Inl False by (subst Do_from.simps) (simp add: final_result_def)
        with ctx show ?thesis by auto
      qed
    next
      case (Inr resp)
      show ?thesis
      proof (cases "isRetryableError rc (StatusCode resp) \<and> attempt <s MaxRetries rc")
        case True
        then have r: "isRetryableError rc (StatusCode resp)" and lt: "attempt <s MaxRetries rc"
          by simp_all
        have eq: "Do_from rc t attempt lastErr lastResp h
                   = Do_from rc t (attempt + 1) lastErr (Some resp)
                       (h @ [RoundTrip, BodyClose, Sleep attempt])"
          using le ctx Inr r lt by (subst Do_from.simps) simp
        from "1.IH"(2)[OF le ctx Inr r lt sle_succ(1)[OF lt]]
        show ?thesis unfolding eq using sle_succ(2)[OF lt] by auto
      next
        case False
        have "Do_from rc t attempt lastErr lastResp h = (final_result (clientDo t h), h @ [RoundTrip])"
          using le ctx Inr False by (subst Do_from.simps) (auto simp: final_result_def)
        with ctx show ?thesis by auto
      qed
    qed
  qed
qed

lemma sint_add_no_overflow:
  fixes c d :: go_int
  assumes "0 <s d" "sint c + sint d < 2 ^ 63"
  shows "sint (c + d) = sint c + sint d"
proof -
  have "0 < sint d" using assms(1) by (simp add: word_sless_alt)
  moreover have "- (2 ^ 63) \<le> sint c" using sint_ge[of c] by simp
  ultimately have "signed_take_bit 63 (sint c + sint d) = sint c + sint d"
    using assms(2) by (intro signed_take_bit_int_eq_self) auto
  then show ?thesis by (simp add: sint_word_ariths)
qed

lemma collect_prefix:
  assumes "list_all collectable pre" "Labels node nodeIdLabel = None"
  shows "delete_nodes_collect (pre @ Some node # post) ids names
           = Returned (Inl (NodeWithoutNodeIDLabel (NodeName node)))"
  using assms
  by (induction pre arbitrary: ids names)
     (auto simp: collectable_def Let_def split: option.splits sum.splits)

lemma collect_skip:
  assumes "Labels node nodeIdLabel \<noteq> None" "Labels node nodeRoleLabel \<noteq> Some ''worker''"
  shows "delete_nodes_collect (pre @ Some node # post) ids names
           = delete_nodes_collect (pre @ post) ids names"
  using assms
  by (induction pre arbitrary: ids names)
     (auto simp: Let_def split: option.splits sum.splits)

lemma collect_success_all_labelled:
  assumes "delete_nodes_collect nds ids names = Returned (Inr r)" "x \<in> set nds"
  shows "\<exists>nd. x = Some nd \<and> Labels nd nodeIdLabel \<noteq> None"
  using assms
  by (induction nds arbitrary: ids names)
     (auto simp: Let_def split: option.splits sum.splits if_splits)

lemma collect_workers:
  assumes "list_all collectable nds"
  shows "delete_nodes_collect nds ids names
           = Returned (Inr (ids @ map fst (workers nds), names @ map snd (workers nds)))"
  using assms
proof (induction nds arbitrary: ids names)
  case Nil
  show ?case by simp
next
  case (Cons x xs)
  from Cons.prems have c: "collectable x" and cs: "list_all collectable xs" by simp_all
  note IH = Cons.IH[OF cs]
  from c show ?case
    by (auto simp: collectable_def worker_entry_def Let_def IH split: option.splits sum.splits)
qed

lemma collect_bad_id:
  assumes "list_all collectable pre" "Labels node nodeIdLabel = Some s"
    and "Labels node nodeRoleLabel = Some ''worker''" "Atoi s = Inl err"
  shows "delete_nodes_collect (pre @ Some node # post) ids names = Returned (Inl err)"
  using assms(1)
proof (induction pre arbitrary: ids names)
  case Nil
  from assms(2-4) show ?case by (simp add: Let_def)
next
  case (Cons x xs)
  from Cons.prems have c: "collectable x" and cs: "list_all collectable xs" by simp_all
  note IH = Cons.IH[OF cs]
  from c show ?case
    by (auto simp: collectable_def Let_def IH split: option.splits sum.splits)
qed

lemma workers_member:
  assumes "x \<in> set nds" "worker_entry x = Some p"
  shows "p \<in> set (workers nds)"
  using assms by (induction nds) (auto split: option.splits)

lemma delete_node_objects_trace:
  "\<exists>suf. snd (delete_node_objects e names h) = h @ suf"
proof (induction names arbitrary: h)
  case Nil
  show ?case by simp
next
  case (Cons nm rest)
  show ?case
  proof (cases "nodesDelete e h nm")
    case None
    from Cons.IH[of "h @ [CallNodesDelete nm]"] None show ?thesis by auto
  next
    case (Some err)
    then show ?thesis by simp
  qed
qed

lemma DeleteNodeObject_trace:
  "\<exists>suf. snd (DeleteNodeObject e names h) = h @ suf"
  using delete_node_objects_trace[of e names "h @ [CallInClusterConfig, CallNewForConfig]"]
  by (auto simp: DeleteNodeObject_def split: option.splits)

lemma DeleteNodes_submits:
  assumes "nodeGroups manager \<noteq> []"
    and "delete_nodes_collect nds [] [] = Returned (Inr (ids, names))"
  shows "\<exists>suf. snd (snd (DeleteNodes e manager n nds h))
                 = h @ CallDeleteClusterNodes (clusterId n) ids # suf"
proof (cases "DeleteClusterNodesWithResponse e h (clusterId n) ids")
  case (Some err)
  with assms show ?thesis by (simp add: DeleteNodes_def)
next
  case None
  let ?h1 = "h @ [CallDeleteClusterNodes (clusterId n) ids]"
  obtain suf where suf: "snd (DeleteNodeObject e names ?h1) = ?h1 @ suf"
    using DeleteNodeObject_trace by blast
  obtain r h2 where d: "DeleteNodeObject e names ?h1 = (r, h2)" by (cases "DeleteNodeObject e names ?h1")
  with suf have h2: "h2 = ?h1 @ suf" by simp
  from assms None d h2 show ?thesis
    by (cases r) (auto simp: DeleteNodes_def Let_def split: option.splits)
qed

subsection \<open>IncreaseSize\<close>

text \<open>
  C3, as stated, fails in both directions. With count 2, maximum 5 and \<open>delta = 2\<close>, the
  call fails when the API refuses to create the nodes, although \<open>delta > 0\<close> and
  \<open>2 + 2 \<le> 5\<close>; and with \<open>delta = 0\<close> the call succeeds (it asks the API for 0 nodes),
  although \<open>delta > 0\<close> is false.
\<close>

theorem IncreaseSize_iff_counterexample:
  "IncreaseSize failing_create_env
       (newTestNodeGroup 1 5 2 10) 2 []
     = (Returned (Some (External ''quota exceeded'')), newTestNodeGroup 1 5 2 10,
        [CallCreateNode 123 2 (Some ''group-a'')])
   \<and> IncreaseSize (sample_env sample_records active_cluster) (newTestNodeGroup 1 5 2 10) 0 []
     = (Returned None, newTestNodeGroup 1 5 2 10, [CallCreateNode 123 0 (Some ''group-a'')])"
  by (simp add: IncreaseSize_def model_defs word_sless_alt)

text \<open>
  C3, amended. For a node group with a record, a name and current count \<open>c\<close>, and a
  delta \<open>d > 0\<close> whose sum with \<open>c\<close> fits the 64-bit int: \<open>IncreaseSize(d)\<close> succeeds if
  and only if \<open>c + d \<le> MaxSize()\<close> and the API call that creates the \<open>d\<close> nodes
  succeeds. If \<open>c + d > MaxSize()\<close> it fails, without calling the API and without
  changing the group, with the error that names current \<open>c\<close>, desired \<open>c + d\<close> and max.
  If \<open>c + d \<le> MaxSize()\<close> it calls the API once, for \<open>d\<close> nodes of the group's name in
  the group's cluster: when that call fails, \<open>IncreaseSize\<close> returns the error of the call
  and leaves the group as it was; when it succeeds, \<open>IncreaseSize\<close> returns nil and the
  group's count is \<open>c + d\<close>, nothing else of the group changed. On success \<open>TargetSize()\<close>
  of the group returns \<open>c + d\<close>.
\<close>

theorem IncreaseSize_positive_delta:
  assumes "nodeGroup n = Some ng" "Name ng = Some nm" "Count ng = Some c"
    and "0 <s d" "sint c + sint d < 2 ^ 63"
  shows "(fst (IncreaseSize e n d h) = Returned None \<longleftrightarrow>
            sint c + sint d \<le> sint (MaxSize n)
            \<and> CreateNodeWithResponse e h (clusterId n) d (Some nm) = None)
       \<and> (sint (MaxSize n) < sint c + sint d \<longrightarrow>
            IncreaseSize e n d h = (Returned (Some (SizeIncreaseTooLarge c (c + d) (MaxSize n))), n, h))
       \<and> (sint c + sint d \<le> sint (MaxSize n) \<longrightarrow>
            (\<forall>err. CreateNodeWithResponse e h (clusterId n) d (Some nm) = Some err \<longrightarrow>
               IncreaseSize e n d h
                 = (Returned (Some err), n, h @ [CallCreateNode (clusterId n) d (Some nm)]))
            \<and> (CreateNodeWithResponse e h (clusterId n) d (Some nm) = None \<longrightarrow>
               IncreaseSize e n d h
                 = (Returned None, n \<lparr> nodeGroup := Some (ng \<lparr> Count := Some (c + d) \<rparr>) \<rparr>,
                    h @ [CallCreateNode (clusterId n) d (Some nm)])))
       \<and> (fst (IncreaseSize e n d h) = Returned None \<longrightarrow>
            TargetSize (fst (snd (IncreaseSize e n d h))) = Returned (c + d, None)
            \<and> sint (c + d) = sint c + sint d)"
  using assms(1-3) sint_add_no_overflow[OF assms(4,5)]
  by (auto simp: IncreaseSize_def TargetSize_def Let_def word_sless_alt split: option.splits)

theorem IncreaseSize_positive_delta_witness:
  "nodeGroup (newTestNodeGroup 1 5 2 10) = Some (sample_record 10 ''worker'' 1 5 2)
   \<and> Name (sample_record 10 ''worker'' 1 5 2) = Some ''group-a''
   \<and> Count (sample_record 10 ''worker'' 1 5 2) = Some 2
   \<and> (0 :: go_int) <s 2 \<and> sint (2 :: go_int) + sint (2 :: go_int) < 2 ^ 63
   \<and> fst (IncreaseSize (sample_env sample_records active_cluster) (newTestNodeGroup 1 5 2 10) 2 [])
       = Returned None
   \<and> TargetSize (fst (snd (IncreaseSize (sample_env sample_records active_cluster)
                               (newTestNodeGroup 1 5 2 10) 2 [])))
       = Returned (4, None)
   \<and> IncreaseSize (sample_env sample_records active_cluster) (newTestNodeGroup 1 5 2 10) 5 []
       = (Returned (Some (SizeIncreaseTooLarge 2 7 5)), newTestNodeGroup 1 5 2 10, [])
   \<and> IncreaseSize failing_create_env (newTestNodeGroup 1 5 2 10) 3 []
       = (Returned (Some (External ''quota exceeded'')), newTestNodeGroup 1 5 2 10,
          [CallCreateNode 123 3 (Some ''group-a'')])
   \<and> IncreaseSize (sample_env sample_records active_cluster) (newTestNodeGroup 1 5 2 10) 3 []
       = (Returned None, newTestNodeGroup 1 5 5 10, [CallCreateNode 123 3 (Some ''group-a'')])"
proof -
  let ?n = "newTestNodeGroup 1 5 2 10" and ?ng = "sample_record 10 ''worker'' 1 5 2"
  let ?e = "sample_env sample_records active_cluster"
  have h1: "nodeGroup ?n = Some ?ng" "Name ?ng = Some ''group-a''" "Count ?ng = Some 2"
    by (simp_all add: model_defs)
  have h2: "(0 :: go_int) <s 2" "sint (2 :: go_int) + sint (2 :: go_int) < 2 ^ 63"
    by (simp_all add: word_sless_alt)
  have h3: "(0 :: go_int) <s 5" "sint (2 :: go_int) + sint (5 :: go_int) < 2 ^ 63"
    by (simp_all add: word_sless_alt)
  have h4: "(0 :: go_int) <s 3" "sint (2 :: go_int) + sint (3 :: go_int) < 2 ^ 63"
    by (simp_all add: word_sless_alt)
  have api: "CreateNodeWithResponse ?e [] (clusterId ?n) 2 (Some ''group-a'') = None"
    by (simp add: model_defs)
  have api3: "CreateNodeWithResponse ?e [] (clusterId ?n) 3 (Some ''group-a'') = None"
    by (simp add: model_defs)
  have apif: "CreateNodeWithResponse failing_create_env [] (clusterId ?n) 3 (Some ''group-a'')
                = Some (External ''quota exceeded'')"
    by (simp add: model_defs)
  have mx: "sint (MaxSize ?n) = 5" by (simp add: model_defs)
  have cid: "clusterId ?n = 123" by (simp add: model_defs)
  have upd: "?n \<lparr> nodeGroup := Some (?ng \<lparr> Count := Some 5 \<rparr>) \<rparr> = newTestNodeGroup 1 5 5 10"
    by (simp add: model_defs)
  from IncreaseSize_positive_delta[OF h1 h2, of ?e "[]"] api mx
  have ok: "fst (IncreaseSize ?e ?n 2 []) = Returned None" by simp
  have ts: "TargetSize (fst (snd (IncreaseSize ?e ?n 2 []))) = Returned (4, None)"
    using IncreaseSize_positive_delta[OF h1 h2, of ?e "[]", THEN conjunct2, THEN conjunct2,
        THEN conjunct2, rule_format, OF ok, THEN conjunct1]
    by simp
  from IncreaseSize_positive_delta[OF h1 h3, of ?e "[]"] mx
  have big: "IncreaseSize ?e ?n 5 [] = (Returned (Some (SizeIncreaseTooLarge 2 7 5)), ?n, [])"
    by (simp add: model_defs)
  have le: "sint (2 :: go_int) + sint (3 :: go_int) \<le> sint (MaxSize ?n)" using mx by simp
  have refused: "IncreaseSize failing_create_env ?n 3 []
       = (Returned (Some (External ''quota exceeded'')), ?n, [CallCreateNode 123 3 (Some ''group-a'')])"
    using IncreaseSize_positive_delta[OF h1 h4, of failing_create_env "[]", THEN conjunct2,
        THEN conjunct2, THEN conjunct1, rule_format, OF le, THEN conjunct1, rule_format, OF apif]
    by (simp add: cid)
  have created: "IncreaseSize ?e ?n 3 []
       = (Returned None, newTestNodeGroup 1 5 5 10, [CallCreateNode 123 3 (Some ''group-a'')])"
    using IncreaseSize_positive_delta[OF h1 h4, of ?e "[]", THEN conjunct2,
        THEN conjunct2, THEN conjunct1, rule_format, OF le, THEN conjunct2, rule_format, OF api3]
    by (simp add: cid upd)
  from h1 h2 ok ts big refused created show ?thesis by blast
qed

subsection \<open>DeleteNodes\<close>

text \<open>
  C8. If the manager's snapshot holds no node group, \<open>DeleteNodes\<close> returns nil for every
  list of nodes, makes no call (the list of calls is as before) and leaves the group, its
  count included, as it was.
\<close>

theorem DeleteNodes_empty_snapshot_is_noop:
  "nodeGroups manager = [] \<Longrightarrow> DeleteNodes e manager n nds h = (Returned None, n, h)"
  by (simp add: DeleteNodes_def)

theorem DeleteNodes_empty_snapshot_is_noop_witness:
  "nodeGroups \<lparr> nodeGroups = [] \<rparr> = []
   \<and> DeleteNodes (sample_env sample_records active_cluster) \<lparr> nodeGroups = [] \<rparr>
       (newTestNodeGroup 1 5 3 10) [Some (unlabelled_node []), Some (worker_node ''n1'' ''100'')] []
     = (Returned None, newTestNodeGroup 1 5 3 10, [])"
  using DeleteNodes_empty_snapshot_is_noop[of "\<lparr> nodeGroups = [] \<rparr>"
      "sample_env sample_records active_cluster" "newTestNodeGroup 1 5 3 10"
      "[Some (unlabelled_node []), Some (worker_node ''n1'' ''100'')]" "[]"]
  by simp

text \<open>
  C10. With a non-empty snapshot, the node-id label is looked for before the role is
  looked at. If the candidates before a node all get past the loop and the node has no
  node-id label, \<open>DeleteNodes\<close> fails with the error that names the node, whatever the
  node's role, without any call and without changing the group; whenever any candidate
  lacks the label, \<open>DeleteNodes\<close> does not return nil and makes no call; and a node that
  has the label and is no worker is skipped: the call behaves as if the node were not in
  the list. No other node is skipped. When all candidates get past the loop, the first
  call that \<open>DeleteNodes\<close> makes asks the API to delete, in the group's cluster, exactly
  the ids of the labelled workers, in the order of the list, so the id of every labelled
  worker is among them; and a labelled worker whose id is no integer, after candidates
  that get past the loop, makes \<open>DeleteNodes\<close> fail with the error of the conversion,
  without any call and without changing the group.
\<close>

theorem DeleteNodes_label_check_precedes_role_check:
  assumes "nodeGroups manager \<noteq> []"
  shows "(list_all collectable pre \<and> Labels node nodeIdLabel = None \<longrightarrow>
            DeleteNodes e manager n (pre @ Some node # post) h
              = (Returned (Some (NodeWithoutNodeIDLabel (NodeName node))), n, h))
       \<and> (Some node \<in> set nds \<and> Labels node nodeIdLabel = None \<longrightarrow>
            fst (DeleteNodes e manager n nds h) \<noteq> Returned None
            \<and> snd (DeleteNodes e manager n nds h) = (n, h))
       \<and> (Labels node nodeIdLabel \<noteq> None \<and> Labels node nodeRoleLabel \<noteq> Some ''worker'' \<longrightarrow>
            DeleteNodes e manager n (pre @ Some node # post) h
              = DeleteNodes e manager n (pre @ post) h)
       \<and> (list_all collectable nds \<longrightarrow>
            (\<exists>suf. snd (snd (DeleteNodes e manager n nds h))
                     = h @ CallDeleteClusterNodes (clusterId n) (map fst (workers nds)) # suf))
       \<and> (list_all collectable nds \<and> Some node \<in> set nds \<and> Labels node nodeIdLabel = Some s
            \<and> Labels node nodeRoleLabel = Some ''worker'' \<and> Atoi s = Inr i \<longrightarrow>
            (\<exists>ids suf. snd (snd (DeleteNodes e manager n nds h))
                         = h @ CallDeleteClusterNodes (clusterId n) ids # suf
                     \<and> i \<in> set ids))
       \<and> (list_all collectable pre \<and> Labels node nodeIdLabel = Some s
            \<and> Labels node nodeRoleLabel = Some ''worker'' \<and> Atoi s = Inl err \<longrightarrow>
            DeleteNodes e manager n (pre @ Some node # post) h = (Returned (Some err), n, h))"
proof (intro conjI impI)
  assume "list_all collectable pre \<and> Labels node nodeIdLabel = None"
  then show "DeleteNodes e manager n (pre @ Some node # post) h
              = (Returned (Some (NodeWithoutNodeIDLabel (NodeName node))), n, h)"
    using assms by (simp add: DeleteNodes_def collect_prefix)
next
  assume a: "Some node \<in> set nds \<and> Labels node nodeIdLabel = None"
  have nr: "delete_nodes_collect nds [] [] \<noteq> Returned (Inr r)" for r
    using collect_success_all_labelled[of nds "[]" "[]" r "Some node"] a by auto
  show "fst (DeleteNodes e manager n nds h) \<noteq> Returned None"
    using assms nr by (cases "delete_nodes_collect nds [] []" rule: outcome.exhaust)
      (auto simp: DeleteNodes_def split: sum.splits)
  show "snd (DeleteNodes e manager n nds h) = (n, h)"
    using assms nr by (cases "delete_nodes_collect nds [] []" rule: outcome.exhaust)
      (auto simp: DeleteNodes_def split: sum.splits)
next
  assume "Labels node nodeIdLabel \<noteq> None \<and> Labels node nodeRoleLabel \<noteq> Some ''worker''"
  then show "DeleteNodes e manager n (pre @ Some node # post) h = DeleteNodes e manager n (pre @ post) h"
    by (simp add: DeleteNodes_def collect_skip)
next
  assume a: "list_all collectable nds"
  have "delete_nodes_collect nds [] [] = Returned (Inr (map fst (workers nds), map snd (workers nds)))"
    using collect_workers[OF a, of "[]" "[]"] by simp
  from DeleteNodes_submits[OF assms this]
  show "\<exists>suf. snd (snd (DeleteNodes e manager n nds h))
                 = h @ CallDeleteClusterNodes (clusterId n) (map fst (workers nds)) # suf" .
next
  assume a: "list_all collectable nds \<and> Some node \<in> set nds \<and> Labels node nodeIdLabel = Some s
            \<and> Labels node nodeRoleLabel = Some ''worker'' \<and> Atoi s = Inr i"
  then have all: "list_all collectable nds" and mem: "Some node \<in> set nds" by simp_all
  from a have "worker_entry (Some node) = Some (i, NodeName node)"
    by (simp add: worker_entry_def)
  from workers_member[OF mem this] have i: "i \<in> set (map fst (workers nds))" by force
  have "delete_nodes_collect nds [] [] = Returned (Inr (map fst (workers nds), map snd (workers nds)))"
    using collect_workers[OF all, of "[]" "[]"] by simp
  from DeleteNodes_submits[OF assms this] i
  show "\<exists>ids suf. snd (snd (DeleteNodes e manager n nds h))
                     = h @ CallDeleteClusterNodes (clusterId n) ids # suf \<and> i \<in> set ids"
    by blast
next
  assume a: "list_all collectable pre \<and> Labels node nodeIdLabel = Some s
            \<and> Labels node nodeRoleLabel = Some ''worker'' \<and> Atoi s = Inl err"
  then have "delete_nodes_collect (pre @ Some node # post) [] [] = Returned (Inl err)"
    using collect_bad_id[of pre node s err post "[]" "[]"] by simp
  with assms show "DeleteNodes e manager n (pre @ Some node # post) h = (Returned (Some err), n, h)"
    by (simp add: DeleteNodes_def)
qed

theorem DeleteNodes_label_check_precedes_role_check_witness:
  "nodeGroups \<lparr> nodeGroups = [newTestNodeGroup 1 5 3 10] \<rparr> \<noteq> []
   \<and> list_all collectable [Some (worker_node ''n1'' ''100''), Some (other_node ''cp1'' ''7'')]
   \<and> Labels (unlabelled_node ''cp2'') nodeIdLabel = None
   \<and> Labels (unlabelled_node ''cp2'') nodeRoleLabel \<noteq> Some ''worker''
   \<and> DeleteNodes (sample_env sample_records active_cluster) \<lparr> nodeGroups = [newTestNodeGroup 1 5 3 10] \<rparr>
       (newTestNodeGroup 1 5 3 10)
       ([Some (worker_node ''n1'' ''100''), Some (other_node ''cp1'' ''7'')]
          @ Some (unlabelled_node ''cp2'') # [Some (worker_node ''n2'' ''200'')]) []
     = (Returned (Some (NodeWithoutNodeIDLabel ''cp2'')), newTestNodeGroup 1 5 3 10, [])
   \<and> Labels (other_node ''cp1'' ''7'') nodeIdLabel \<noteq> None
   \<and> Labels (other_node ''cp1'' ''7'') nodeRoleLabel \<noteq> Some ''worker''
   \<and> DeleteNodes (sample_env sample_records active_cluster) \<lparr> nodeGroups = [newTestNodeGroup 1 5 3 10] \<rparr>
       (newTestNodeGroup 1 5 3 10)
       ([Some (worker_node ''n1'' ''100'')] @ Some (other_node ''cp1'' ''7'') # []) []
     = DeleteNodes (sample_env sample_records active_cluster) \<lparr> nodeGroups = [newTestNodeGroup 1 5 3 10] \<rparr>
       (newTestNodeGroup 1 5 3 10) ([Some (worker_node ''n1'' ''100'')] @ []) []
   \<and> Some (unlabelled_node ''cp2'') \<in> set [None, Some (unlabelled_node ''cp2'')]
   \<and> fst (DeleteNodes (sample_env sample_records active_cluster)
             \<lparr> nodeGroups = [newTestNodeGroup 1 5 3 10] \<rparr> (newTestNodeGroup 1 5 3 10)
             [None, Some (unlabelled_node ''cp2'')] []) \<noteq> Returned None
   \<and> list_all collectable [Some (worker_node ''n1'' ''100''), Some (other_node ''cp1'' ''7''),
                            Some (worker_node ''n2'' ''200'')]
   \<and> hd (snd (snd (DeleteNodes (sample_env sample_records active_cluster)
                      \<lparr> nodeGroups = [newTestNodeGroup 1 5 3 10] \<rparr> (newTestNodeGroup 1 5 3 10)
                      [Some (worker_node ''n1'' ''100''), Some (other_node ''cp1'' ''7''),
                       Some (worker_node ''n2'' ''200'')] [])))
       = CallDeleteClusterNodes 123 [100, 200]
   \<and> Some (worker_node ''n2'' ''200'')
       \<in> set [Some (worker_node ''n1'' ''100''), Some (other_node ''cp1'' ''7''),
              Some (worker_node ''n2'' ''200'')]
   \<and> Labels (worker_node ''n2'' ''200'') nodeIdLabel = Some ''200''
   \<and> Labels (worker_node ''n2'' ''200'') nodeRoleLabel = Some ''worker''
   \<and> Atoi ''200'' = Inr 200
   \<and> (\<exists>ids suf.
         snd (snd (DeleteNodes (sample_env sample_records active_cluster)
                     \<lparr> nodeGroups = [newTestNodeGroup 1 5 3 10] \<rparr> (newTestNodeGroup 1 5 3 10)
                     [Some (worker_node ''n1'' ''100''), Some (other_node ''cp1'' ''7''),
                      Some (worker_node ''n2'' ''200'')] []))
           = CallDeleteClusterNodes 123 ids # suf
         \<and> 200 \<in> set ids)
   \<and> Atoi ''abc'' = Inl (ErrSyntax ''abc'')
   \<and> DeleteNodes (sample_env sample_records active_cluster) \<lparr> nodeGroups = [newTestNodeGroup 1 5 3 10] \<rparr>
       (newTestNodeGroup 1 5 3 10)
       ([Some (other_node ''cp1'' ''7'')] @ Some (worker_node ''n3'' ''abc'')
          # [Some (worker_node ''n2'' ''200'')]) []
     = (Returned (Some (ErrSyntax ''abc'')), newTestNodeGroup 1 5 3 10, [])"
proof -
  let ?m = "\<lparr> nodeGroups = [newTestNodeGroup 1 5 3 10] \<rparr>"
  let ?e = "sample_env sample_records active_cluster"
  let ?n = "newTestNodeGroup 1 5 3 10"
  let ?nds = "[Some (worker_node ''n1'' ''100''), Some (other_node ''cp1'' ''7''),
               Some (worker_node ''n2'' ''200'')]"
  have ne: "nodeGroups ?m \<noteq> []" by simp
  have pre: "list_all collectable [Some (worker_node ''n1'' ''100''), Some (other_node ''cp1'' ''7'')]"
    by (simp add: collectable_def model_defs)
  have un: "Labels (unlabelled_node ''cp2'') nodeIdLabel = None"
           "Labels (unlabelled_node ''cp2'') nodeRoleLabel \<noteq> Some ''worker''"
    by (simp_all add: model_defs)
  have ot: "Labels (other_node ''cp1'' ''7'') nodeIdLabel \<noteq> None"
           "Labels (other_node ''cp1'' ''7'') nodeRoleLabel \<noteq> Some ''worker''"
    by (simp_all add: model_defs)
  note inst = DeleteNodes_label_check_precedes_role_check[OF ne]
  have a: "DeleteNodes ?e ?m ?n
       ([Some (worker_node ''n1'' ''100''), Some (other_node ''cp1'' ''7'')]
          @ Some (unlabelled_node ''cp2'') # [Some (worker_node ''n2'' ''200'')]) []
     = (Returned (Some (NodeWithoutNodeIDLabel ''cp2'')), ?n, [])"
    using inst[where pre = "[Some (worker_node ''n1'' ''100''), Some (other_node ''cp1'' ''7'')]"
        and node = "unlabelled_node ''cp2''" and e = ?e and n = ?n
        and post = "[Some (worker_node ''n2'' ''200'')]" and h = "[]",
        THEN conjunct1, rule_format, OF conjI[OF pre un(1)]]
    by (simp add: unlabelled_node_def)
  have b: "DeleteNodes ?e ?m ?n
       ([Some (worker_node ''n1'' ''100'')] @ Some (other_node ''cp1'' ''7'') # []) []
     = DeleteNodes ?e ?m ?n ([Some (worker_node ''n1'' ''100'')] @ []) []"
    using inst[where pre = "[Some (worker_node ''n1'' ''100'')]"
        and node = "other_node ''cp1'' ''7''" and e = ?e and n = ?n and post = "[]" and h = "[]",
        THEN conjunct2, THEN conjunct2, THEN conjunct1, rule_format, OF conjI[OF ot]] .
  have mem: "Some (unlabelled_node ''cp2'') \<in> set [None, Some (unlabelled_node ''cp2'')]" by simp
  have c: "fst (DeleteNodes ?e ?m ?n [None, Some (unlabelled_node ''cp2'')] []) \<noteq> Returned None"
    using inst[where node = "unlabelled_node ''cp2''" and nds = "[None, Some (unlabelled_node ''cp2'')]"
        and e = ?e and n = ?n and h = "[]",
        THEN conjunct2, THEN conjunct1, rule_format, OF conjI[OF mem un(1)], THEN conjunct1] .
  have all: "list_all collectable ?nds"
    by (simp add: collectable_def model_defs)
  have w: "map fst (workers ?nds) = [100, 200]"
    by (simp add: worker_entry_def model_defs)
  have cid: "clusterId ?n = 123" by (simp add: model_defs)
  have d: "hd (snd (snd (DeleteNodes ?e ?m ?n ?nds []))) = CallDeleteClusterNodes 123 [100, 200]"
    using inst[where nds = ?nds and e = ?e and n = ?n and h = "[]",
        THEN conjunct2, THEN conjunct2, THEN conjunct2, THEN conjunct1, rule_format, OF all]
    unfolding w cid by auto
  have m2: "Some (worker_node ''n2'' ''200'') \<in> set ?nds" by simp
  have l2: "Labels (worker_node ''n2'' ''200'') nodeIdLabel = Some ''200''"
           "Labels (worker_node ''n2'' ''200'') nodeRoleLabel = Some ''worker''"
    by (simp_all add: model_defs)
  have a2: "Atoi ''200'' = Inr 200" by (simp add: model_defs)
  have g: "\<exists>ids suf. snd (snd (DeleteNodes ?e ?m ?n ?nds [])) = CallDeleteClusterNodes 123 ids # suf
                     \<and> 200 \<in> set ids"
    using inst[where nds = ?nds and node = "worker_node ''n2'' ''200''" and s = "''200''"
        and i = 200 and e = ?e and n = ?n and h = "[]",
        THEN conjunct2, THEN conjunct2, THEN conjunct2, THEN conjunct2, THEN conjunct1,
        rule_format, OF conjI[OF all conjI[OF m2 conjI[OF l2(1) conjI[OF l2(2) a2]]]]]
    unfolding cid by simp
  have at: "Atoi ''abc'' = Inl (ErrSyntax ''abc'')"
    by (simp add: Atoi_def is_digit_def)
  have p1: "list_all collectable [Some (other_node ''cp1'' ''7'')]"
    by (simp add: collectable_def model_defs)
  have wl: "Labels (worker_node ''n3'' ''abc'') nodeIdLabel = Some ''abc''"
           "Labels (worker_node ''n3'' ''abc'') nodeRoleLabel = Some ''worker''"
    by (simp_all add: model_defs)
  have f: "DeleteNodes ?e ?m ?n
       ([Some (other_node ''cp1'' ''7'')] @ Some (worker_node ''n3'' ''abc'')
          # [Some (worker_node ''n2'' ''200'')]) []
     = (Returned (Some (ErrSyntax ''abc'')), ?n, [])"
    using inst[where pre = "[Some (other_node ''cp1'' ''7'')]" and node = "worker_node ''n3'' ''abc''"
        and s = "''abc''" and err = "ErrSyntax ''abc''" and e = ?e and n = ?n
        and post = "[Some (worker_node ''n2'' ''200'')]" and h = "[]",
        THEN conjunct2, THEN conjunct2, THEN conjunct2, THEN conjunct2, THEN conjunct2,
        rule_format, OF conjI[OF p1 conjI[OF wl(1) conjI[OF wl(2) at]]]] .
  from ne pre un ot a b mem c all d m2 l2 a2 g at f show ?thesis by blast
qed

subsection \<open>The retrying client after the last attempt\<close>

text \<open>
  C4, as stated, fails in its second half. With \<open>MaxRetries = 1\<close> and two transport
  failures, \<open>Do\<close> returns the second transport error as it is: the error with the text
  \<open>max retries exceeded\<close> that would wrap it is built after the loop, and the loop
  returns from its last iteration.
\<close>

theorem Do_wraps_last_error_counterexample:
  "Do (DefaultRetryConfig \<lparr> MaxRetries := 1 \<rparr>)
      (scripted [Inl (External ''connection reset''), Inl (External ''connection refused'')]) []
     = ((None, Some (External ''connection refused'')), [RoundTrip, Sleep 0, RoundTrip])
   \<and> External ''connection refused'' \<noteq> MaxRetriesExceeded (Some (External ''connection refused''))"
  by (simp add: Do_def Do_from.simps scripted_def round_trips_def DefaultRetryConfig_def
        word_sle_eq word_sless_alt)

text \<open>
  C4, amended. Let \<open>MaxRetries \<ge> 0\<close>. \<open>Do\<close> makes at most \<open>MaxRetries + 1\<close> round trips.
  Whenever it makes all \<open>MaxRetries + 1\<close> of them, the last round trip is the last
  thing it does and it returns what that round trip gave: the last response with a nil
  error if it gave a response, and a nil response with the last transport error
  itself, not wrapped, if it failed. It makes all of them, in particular, when the
  context is never done and every attempt is one that the client retries (a transport
  failure or a response with a retryable status).
\<close>

theorem Do_exhausted_returns_last_outcome:
  assumes "0 \<le>s MaxRetries rc"
  shows "round_trips (snd (Do rc t h)) \<le> round_trips h + nat (sint (MaxRetries rc)) + 1
       \<and> (round_trips (snd (Do rc t h)) = round_trips h + nat (sint (MaxRetries rc)) + 1 \<longrightarrow>
            (\<exists>h'. snd (Do rc t h) = h' @ [RoundTrip]
                \<and> fst (Do rc t h) = final_result (clientDo t h')))
       \<and> ((\<forall>h. ctxErr t h = None) \<and> (\<forall>h. retryable_outcome rc (clientDo t h)) \<longrightarrow>
            round_trips (snd (Do rc t h)) = round_trips h + nat (sint (MaxRetries rc)) + 1)"
proof (intro conjI impI)
  from Do_from_run[OF assms, of t None None h]
  show "round_trips (snd (Do rc t h)) \<le> round_trips h + nat (sint (MaxRetries rc)) + 1"
    by (auto simp: Do_def)
next
  assume full: "round_trips (snd (Do rc t h)) = round_trips h + nat (sint (MaxRetries rc)) + 1"
  from Do_from_run[OF assms, of t None None h] full
  show "\<exists>h'. snd (Do rc t h) = h' @ [RoundTrip] \<and> fst (Do rc t h) = final_result (clientDo t h')"
    by (auto simp: Do_def)
next
  assume a: "(\<forall>h. ctxErr t h = None) \<and> (\<forall>h. retryable_outcome rc (clientDo t h))"
  then have c: "\<forall>h. ctxErr t h = None" and r: "\<forall>h. retryable_outcome rc (clientDo t h)"
    by simp_all
  from Do_from_exhausts[OF c r assms, of None None h]
  show "round_trips (snd (Do rc t h)) = round_trips h + nat (sint (MaxRetries rc)) + 1"
    by (auto simp: Do_def)
qed

theorem Do_exhausted_returns_last_outcome_witness:
  "(0 :: go_int) \<le>s MaxRetries DefaultRetryConfig
   \<and> snd (Do DefaultRetryConfig
             (scripted [Inr \<lparr> StatusCode = 503 \<rparr>, Inr \<lparr> StatusCode = 503 \<rparr>,
                        Inr \<lparr> StatusCode = 503 \<rparr>, Inr \<lparr> StatusCode = 503 \<rparr>,
                        Inr \<lparr> StatusCode = 200 \<rparr>]) [])
       = [RoundTrip, BodyClose, Sleep 0, RoundTrip, BodyClose, Sleep 1,
          RoundTrip, BodyClose, Sleep 2, RoundTrip]
   \<and> fst (Do DefaultRetryConfig
             (scripted [Inr \<lparr> StatusCode = 503 \<rparr>, Inr \<lparr> StatusCode = 503 \<rparr>,
                        Inr \<lparr> StatusCode = 503 \<rparr>, Inr \<lparr> StatusCode = 503 \<rparr>,
                        Inr \<lparr> StatusCode = 200 \<rparr>]) [])
       = (Some \<lparr> StatusCode = 503 \<rparr>, None)
   \<and> round_trips (snd (Do DefaultRetryConfig (constant_transport (Inr \<lparr> StatusCode = 503 \<rparr>)) [])) = 4
   \<and> fst (Do DefaultRetryConfig (constant_transport (Inr \<lparr> StatusCode = 503 \<rparr>)) [])
       = (Some \<lparr> StatusCode = 503 \<rparr>, None)
   \<and> fst (Do DefaultRetryConfig (constant_transport (Inl (External ''connection refused''))) [])
       = (None, Some (External ''connection refused''))"
proof -
  let ?s = "scripted [Inr \<lparr> StatusCode = 503 \<rparr>, Inr \<lparr> StatusCode = 503 \<rparr>,
                      Inr \<lparr> StatusCode = 503 \<rparr>, Inr \<lparr> StatusCode = 503 \<rparr>,
                      Inr \<lparr> StatusCode = 200 \<rparr>]"
  let ?tr = "[RoundTrip, BodyClose, Sleep 0, RoundTrip, BodyClose, Sleep 1,
              RoundTrip, BodyClose, Sleep 2]"
  have m: "(0 :: go_int) \<le>s MaxRetries DefaultRetryConfig"
    by (simp add: DefaultRetryConfig_def word_sle_eq)
  have n: "nat (sint (MaxRetries DefaultRetryConfig)) = 3"
    by (simp add: DefaultRetryConfig_def)
  have tr: "snd (Do DefaultRetryConfig ?s []) = ?tr @ [RoundTrip]"
    by (simp add: Do_def Do_from.simps scripted_def round_trips_def DefaultRetryConfig_def
          isRetryableError_def word_sle_eq word_sless_alt)
  have full: "round_trips (snd (Do DefaultRetryConfig ?s []))
                = round_trips [] + nat (sint (MaxRetries DefaultRetryConfig)) + 1"
    unfolding tr n by (simp add: round_trips_def)
  from Do_exhausted_returns_last_outcome[OF m, of ?s "[]", THEN conjunct2, THEN conjunct1,
      rule_format, OF full]
  obtain h' where h': "snd (Do DefaultRetryConfig ?s []) = h' @ [RoundTrip]"
      and res: "fst (Do DefaultRetryConfig ?s []) = final_result (clientDo ?s h')"
    by blast
  from h' tr have "h' = ?tr" by simp
  with res have a: "fst (Do DefaultRetryConfig ?s []) = (Some \<lparr> StatusCode = 503 \<rparr>, None)"
    by (simp add: scripted_def round_trips_def final_result_def)
  let ?c = "constant_transport (Inr \<lparr> StatusCode = 503 \<rparr>)"
  let ?f = "constant_transport (Inl (External ''connection refused''))"
  have c: "\<forall>h. ctxErr (constant_transport x) h = None" for x
    by (simp add: constant_transport_def)
  have r1: "\<forall>h. retryable_outcome DefaultRetryConfig (clientDo ?c h)"
    by (simp add: constant_transport_def retryable_outcome_def isRetryableError_def DefaultRetryConfig_def)
  have r2: "\<forall>h. retryable_outcome DefaultRetryConfig (clientDo ?f h)"
    by (simp add: constant_transport_def retryable_outcome_def)
  have f1: "round_trips (snd (Do DefaultRetryConfig ?c []))
              = round_trips [] + nat (sint (MaxRetries DefaultRetryConfig)) + 1"
    using Do_exhausted_returns_last_outcome[OF m, of ?c "[]", THEN conjunct2, THEN conjunct2,
        rule_format, OF conjI[OF c r1]] .
  have f2: "round_trips (snd (Do DefaultRetryConfig ?f []))
              = round_trips [] + nat (sint (MaxRetries DefaultRetryConfig)) + 1"
    using Do_exhausted_returns_last_outcome[OF m, of ?f "[]", THEN conjunct2, THEN conjunct2,
        rule_format, OF conjI[OF c r2]] .
  from f1 n have b1: "round_trips (snd (Do DefaultRetryConfig ?c [])) = 4"
    by (simp add: round_trips_def)
  from Do_exhausted_returns_last_outcome[OF m, of ?c "[]", THEN conjunct2, THEN conjunct1,
      rule_format, OF f1]
  have b2: "fst (Do DefaultRetryConfig ?c []) = (Some \<lparr> StatusCode = 503 \<rparr>, None)"
    by (auto simp: constant_transport_def final_result_def)
  from Do_exhausted_returns_last_outcome[OF m, of ?f "[]", THEN conjunct2, THEN conjunct1,
      rule_format, OF f2]
  have b3: "fst (Do DefaultRetryConfig ?f []) = (None, Some (External ''connection refused''))"
    by (auto simp: constant_transport_def final_result_def)
  from m tr a b1 b2 b3 show ?thesis by simp
qed

subsection \<open>A failing metadata endpoint\<close>

text \<open>
  C5 does not hold of the code. When the GET of the metadata endpoint fails,
  \<open>GetMetadata\<close> panics instead of returning the error, the panic passes through
  \<open>GetNodeLabel\<close>, whose branch for an error of \<open>GetMetadata\<close> is never taken, and through
  \<open>Refresh\<close>; the same holds when reading the body or decoding it fails.
\<close>

theorem GetMetadata_failure_panics:
  "fst (GetMetadata failing_metadata_env [])
     = Panicked (FailedToGETMetadata (External ''connection refused''))
   \<and> fst (GetNodeLabel failing_metadata_env
            clusterIdLabel [])
     = Panicked (FailedToGETMetadata (External ''connection refused''))
   \<and> fst (Refresh failing_metadata_env
            \<lparr> nodeGroups = [] \<rparr> [])
     = Panicked (FailedToGETMetadata (External ''connection refused''))
   \<and> fst (GetNodeLabel failing_body_env
            clusterIdLabel [])
     = Panicked (FailedToReadBody (External ''unexpected EOF''))
   \<and> fst (GetNodeLabel failing_json_env
            clusterIdLabel [])
     = Panicked (FailedToUnmarshalJSON (External ''invalid character''))"
  by (simp add: model_defs)

subsection \<open>Auxiliary facts on the timestamp codec\<close>

lemma of_char_digit_char: "d < 10 \<Longrightarrow> (of_char (digit_char d) :: nat) = 48 + d"
  by (simp add: digit_char_def)

lemma digit_char_digit [simp]:
  assumes "d < 10"
  shows "is_digit (digit_char d)" "digit_val (digit_char d) = d"
    "digit_char d \<noteq> CHR 0x22" "digit_char d \<noteq> CHR ''n''"
proof -
  note oc = of_char_digit_char[OF assms]
  show "is_digit (digit_char d)" using oc assms by (simp add: is_digit_def)
  show "digit_val (digit_char d) = d" using oc by (simp add: digit_val_def)
  show "digit_char d \<noteq> CHR 0x22"
  proof
    assume "digit_char d = CHR 0x22"
    then have "(of_char (digit_char d) :: nat) = of_char (CHR 0x22)" by simp
    with oc show False by simp
  qed
  show "digit_char d \<noteq> CHR ''n''"
  proof
    assume "digit_char d = CHR ''n''"
    then have "(of_char (digit_char d) :: nat) = of_char (CHR ''n'')" by simp
    with oc assms show False by simp
  qed
qed

lemma four_digits:
  "10 * (10 * (10 * (u div 1000) + u div 100 mod 10) + u div 10 mod 10) + u mod 10 = (u::nat)"
proof -
  have a: "u div 1000 = u div 100 div 10" and b: "u div 100 = u div 10 div 10"
    by (simp_all add: div_mult2_eq)
  have "10 * (u div 100 div 10) + u div 100 mod 10 = u div 100" by simp
  moreover have "10 * (u div 10 div 10) + u div 10 mod 10 = u div 10" by simp
  moreover have "10 * (u div 10) + u mod 10 = u" by simp
  ultimately show ?thesis unfolding a b by simp
qed

lemma two_digits: "10 * (u div 10) + u mod 10 = (u::nat)"
  by simp

lemma parse_year_appendInt:
  assumes "0 \<le> y" "y \<le> 9999"
  shows "parse_year (appendInt y 4 @ rest) = Some (y, rest)"
proof -
  define u where "u = nat y"
  have u: "u < 10000" "int u = y" using assms by (auto simp: u_def)
  have d: "u div 1000 < 10" "u div 100 mod 10 < 10" "u div 10 mod 10 < 10" "u mod 10 < 10"
    using u(1) by auto
  have "appendInt y 4 = [digit_char (u div 1000), digit_char (u div 100 mod 10),
             digit_char (u div 10 mod 10), digit_char (u mod 10)]"
    using assms u(1) unfolding u_def appendInt_def Let_def by simp
  then show ?thesis
    using d four_digits[of u] u(2)
    by (simp add: parse_year_def isDigit_def)
qed

lemma getnum_appendInt:
  assumes "0 \<le> x" "x < 100"
  shows "getnum (appendInt x 2 @ rest) fixed = Some (x, rest)"
proof -
  define u where "u = nat x"
  have u: "u < 100" "int u = x" using assms by (auto simp: u_def)
  have d: "u div 10 < 10" "u mod 10 < 10" using u(1) by auto
  have "appendInt x 2 = [digit_char (u div 10), digit_char (u mod 10)]"
    using assms u(1) unfolding u_def appendInt_def Let_def by simp
  moreover have "int (u div 10) * 10 + int (u mod 10) = x"
    using two_digits[of u] u(2) by linarith
  ultimately show ?thesis
    using d by (simp add: getnum_def isDigit_def)
qed

lemma getnum_appendInt_end:
  assumes "0 \<le> x" "x < 100"
  shows "getnum (appendInt x 2) fixed = Some (x, [])"
  using getnum_appendInt[OF assms, of "[]" fixed] by simp

lemma skip_Cons [simp]: "skip (c # rest) c = Some rest"
  by (simp add: skip_def)

lemma parse_fraction_Nil [simp]: "parse_fraction [] = (0, [])"
  by (simp add: parse_fraction_def)

lemma daysIn_le_31: "daysIn m y \<le> 31"
  by (simp add: daysIn_def)

lemma Parse_Format:
  assumes "valid_time t" "0 \<le> Year t" "Year t \<le> 9999"
  shows "Parse (Format t) = Inr (t \<lparr> Nanosecond := 0, ZoneOffset := 0 \<rparr>)"
proof -
  from assms(1) have r: "1 \<le> Month t" "Month t \<le> 12" "1 \<le> Day t" "Day t \<le> daysIn (Month t) (Year t)"
    "0 \<le> Hour t" "Hour t < 24" "0 \<le> Minute t" "Minute t < 60" "0 \<le> Second t" "Second t < 60"
    by (simp_all add: valid_time_def)
  have d100: "Day t < 100" using r(4) daysIn_le_31[of "Month t" "Year t"] by linarith
  have m: "getnum (appendInt (Month t) 2 @ rest) fixed = Some (Month t, rest)" for rest fixed
    using r by (intro getnum_appendInt) auto
  have d: "getnum (appendInt (Day t) 2 @ rest) fixed = Some (Day t, rest)" for rest fixed
    using r d100 by (intro getnum_appendInt) auto
  have hh: "getnum (appendInt (Hour t) 2 @ rest) fixed = Some (Hour t, rest)" for rest fixed
    using r by (intro getnum_appendInt) auto
  have mi: "getnum (appendInt (Minute t) 2 @ rest) fixed = Some (Minute t, rest)" for rest fixed
    using r by (intro getnum_appendInt) auto
  have ss: "getnum (appendInt (Second t) 2) fixed = Some (Second t, [])" for fixed
    using r by (intro getnum_appendInt_end) auto
  let ?v10 = "appendInt (Second t) 2"
  let ?v8 = "appendInt (Minute t) 2 @ CHR '':'' # ?v10"
  let ?v6 = "appendInt (Hour t) 2 @ CHR '':'' # ?v8"
  let ?v4 = "appendInt (Day t) 2 @ CHR ''T'' # ?v6"
  let ?v2 = "appendInt (Month t) 2 @ CHR ''-'' # ?v4"
  have F: "Format t = appendInt (Year t) 4 @ CHR ''-'' # ?v2" by (simp add: Format_def)
  have P: "Parse (Format t) =
     (if Month t \<le> 0 \<or> 12 < Month t then Inl (TimeParseError (Format t)) else
      if Hour t < 0 \<or> 24 \<le> Hour t then Inl (TimeParseError (Format t)) else
      if Minute t < 0 \<or> 60 \<le> Minute t then Inl (TimeParseError (Format t)) else
      if Second t < 0 \<or> 60 \<le> Second t then Inl (TimeParseError (Format t)) else
      if Day t < 1 \<or> daysIn (Month t) (Year t) < Day t then Inl (TimeParseError (Format t))
      else Inr \<lparr> Year = Year t, Month = Month t, Day = Day t, Hour = Hour t, Minute = Minute t,
                 Second = Second t, Nanosecond = 0, ZoneOffset = 0 \<rparr>)"
    unfolding Parse_def F
    by (simp only: parse_year_appendInt[OF assms(2,3)] option.case prod.case skip_Cons m d hh mi ss
          parse_fraction_Nil if_True if_False simp_thms)
  have "Parse (Format t) = Inr \<lparr> Year = Year t, Month = Month t, Day = Day t, Hour = Hour t,
            Minute = Minute t, Second = Second t, Nanosecond = 0, ZoneOffset = 0 \<rparr>"
    unfolding P using r by simp
  then show ?thesis by (cases t) simp
qed

lemma Format_shape:
  assumes "valid_time t" "0 \<le> Year t" "Year t \<le> 9999"
  shows "\<exists>c0 cs c1. Format t = c0 # cs @ [c1] \<and> is_digit c0 \<and> is_digit c1
           \<and> c0 \<noteq> CHR 0x22 \<and> c1 \<noteq> CHR 0x22"
proof -
  define u where "u = nat (Year t)"
  define v where "v = nat (Second t)"
  from assms(1) have s: "0 \<le> Second t" "Second t < 60" by (simp_all add: valid_time_def)
  have u: "u < 10000" using assms by (auto simp: u_def)
  have v: "v < 100" using s by (auto simp: v_def)
  have y: "appendInt (Year t) 4 = [digit_char (u div 1000), digit_char (u div 100 mod 10),
             digit_char (u div 10 mod 10), digit_char (u mod 10)]"
    using assms u unfolding u_def appendInt_def Let_def by simp
  have sc: "appendInt (Second t) 2 = [digit_char (v div 10), digit_char (v mod 10)]"
    using s v unfolding v_def appendInt_def Let_def by simp
  have d: "u div 1000 < 10" "v mod 10 < 10" using u by auto
  show ?thesis
    apply (rule exI[of _ "digit_char (u div 1000)"])
    apply (rule exI[of _ "[digit_char (u div 100 mod 10), digit_char (u div 10 mod 10), digit_char (u mod 10)]
             @ ''-'' @ appendInt (Month t) 2 @ ''-'' @ appendInt (Day t) 2 @ ''T'' @
             appendInt (Hour t) 2 @ '':'' @ appendInt (Minute t) 2 @ '':'' @ [digit_char (v div 10)]"])
    apply (rule exI[of _ "digit_char (v mod 10)"])
    using d by (simp add: Format_def y sc)
qed

lemma trim_quotes_quoted:
  assumes "c0 \<noteq> CHR 0x22" "c1 \<noteq> CHR 0x22"
  shows "trim_quotes ([CHR 0x22] @ (c0 # cs @ [c1]) @ [CHR 0x22]) = c0 # cs @ [c1]"
  using assms by (simp add: trim_quotes_def)

lemma not_digit_n: "\<not> is_digit CHR ''n''"
  by (simp add: is_digit_def)

lemma digit_char_numerals:
  "digit_char 0 = CHR ''0''" "digit_char 1 = CHR ''1''" "digit_char 2 = CHR ''2''"
  "digit_char 3 = CHR ''3''" "digit_char 4 = CHR ''4''" "digit_char 5 = CHR ''5''"
  "digit_char 6 = CHR ''6''" "digit_char 7 = CHR ''7''" "digit_char 8 = CHR ''8''"
  "digit_char 9 = CHR ''9''" "digit_char (Suc 0) = CHR ''1''"
  by (simp_all add: digit_char_def char_of_def bit_Suc_0_iff)

lemmas parse_defs =
  UnmarshalJSON_def trim_quotes_def Parse_def parse_year_def getnum_def skip_def
  isDigit_def is_digit_def digit_val_def parse_fraction_def daysIn_def isLeap_def Let_def

subsection \<open>The timestamp codec\<close>

text \<open>
  C9, as stated, fails. The layout has no zone and at most four year digits. A time with
  second precision in a zone two hours east of UTC is printed with its local clock and
  read back as that clock in UTC, which is another instant (two hours later); and a time
  in the year 10000 is printed with five year digits, which \<open>Parse\<close> refuses.
\<close>

theorem CustomTime_roundtrip_counterexample:
  "UnmarshalJSON \<lparr> CtTime = zero_time \<rparr> (fst (MarshalJSON \<lparr> CtTime = sample_zoned_time \<rparr>))
     = (\<lparr> CtTime = sample_utc_time \<rparr>, None)
   \<and> sample_utc_time \<noteq> sample_zoned_time
   \<and> UnmarshalJSON \<lparr> CtTime = zero_time \<rparr> (fst (MarshalJSON \<lparr> CtTime = sample_far_time \<rparr>))
     = (\<lparr> CtTime = zero_time \<rparr>, Some (TimeParseError ''10000-01-01T00:00:00''))"
proof -
  have m1: "fst (MarshalJSON \<lparr> CtTime = sample_zoned_time \<rparr>)
              = [CHR 0x22] @ ''2024-05-06T12:30:00'' @ [CHR 0x22]"
    by (simp add: MarshalJSON_def Format_def appendInt_def digit_char_numerals sample_zoned_time_def)
  have u1: "UnmarshalJSON \<lparr> CtTime = zero_time \<rparr> ([CHR 0x22] @ ''2024-05-06T12:30:00'' @ [CHR 0x22])
              = (\<lparr> CtTime = sample_utc_time \<rparr>, None)"
    by (simp add: parse_defs sample_utc_time_def)
  have m2: "fst (MarshalJSON \<lparr> CtTime = sample_far_time \<rparr>)
              = [CHR 0x22] @ ''10000-01-01T00:00:00'' @ [CHR 0x22]"
    by (simp add: MarshalJSON_def Format_def appendInt_def digit_char_numerals dec_digits.simps
          sample_far_time_def)
  have u2: "UnmarshalJSON \<lparr> CtTime = zero_time \<rparr> ([CHR 0x22] @ ''10000-01-01T00:00:00'' @ [CHR 0x22])
              = (\<lparr> CtTime = zero_time \<rparr>, Some (TimeParseError ''10000-01-01T00:00:00''))"
    by (simp add: parse_defs)
  have ne: "sample_utc_time \<noteq> sample_zoned_time"
    by (simp add: sample_utc_time_def sample_zoned_time_def)
  show ?thesis unfolding m1 m2 using u1 u2 ne by blast
qed

text \<open>
  C9, amended. For every time value in UTC whose year is between 0 and 9999, marshaling
  with \<open>MarshalJSON\<close> and then unmarshaling with \<open>UnmarshalJSON\<close> succeeds and yields the
  value cut to the second; so it yields the value itself when the value has no
  fraction of a second. Unmarshaling \<open>null\<close>, with or without quotes, yields the zero
  time.
\<close>

theorem CustomTime_roundtrip_utc:
  assumes "valid_time t" "0 \<le> Year t" "Year t \<le> 9999" "ZoneOffset t = 0"
  shows "UnmarshalJSON ct (fst (MarshalJSON \<lparr> CtTime = t \<rparr>))
           = (ct \<lparr> CtTime := t \<lparr> Nanosecond := 0 \<rparr> \<rparr>, None)
       \<and> UnmarshalJSON ct ''null'' = (ct \<lparr> CtTime := zero_time \<rparr>, None)
       \<and> UnmarshalJSON ct [CHR 0x22, CHR ''n'', CHR ''u'', CHR ''l'', CHR ''l'', CHR 0x22]
           = (ct \<lparr> CtTime := zero_time \<rparr>, None)"
proof -
  from Format_shape[OF assms(1-3)] obtain c0 cs c1 where
    f: "Format t = c0 # cs @ [c1]" "is_digit c0" "c0 \<noteq> CHR 0x22" "c1 \<noteq> CHR 0x22" by blast
  have tq: "trim_quotes (fst (MarshalJSON \<lparr> CtTime = t \<rparr>)) = Format t"
    using trim_quotes_quoted[OF f(3,4), of cs] f(1) by (simp add: MarshalJSON_def)
  have nn: "Format t \<noteq> ''null''"
    using f(1,2) not_digit_n by auto
  have z: "t \<lparr> Nanosecond := 0, ZoneOffset := 0 \<rparr> = t \<lparr> Nanosecond := 0 \<rparr>"
    using assms(4) by (cases t) simp
  show ?thesis
    using tq nn Parse_Format[OF assms(1-3)] z
    by (simp add: UnmarshalJSON_def Let_def trim_quotes_def)
qed

theorem CustomTime_roundtrip_utc_witness:
  "valid_time sample_utc_time \<and> 0 \<le> Year sample_utc_time \<and> Year sample_utc_time \<le> 9999
   \<and> ZoneOffset sample_utc_time = 0
   \<and> UnmarshalJSON \<lparr> CtTime = zero_time \<rparr> (fst (MarshalJSON \<lparr> CtTime = sample_utc_time \<rparr>))
       = (\<lparr> CtTime = sample_utc_time \<rparr>, None)
   \<and> UnmarshalJSON \<lparr> CtTime = sample_utc_time \<rparr> ''null'' = (\<lparr> CtTime = zero_time \<rparr>, None)"
proof -
  have h: "valid_time sample_utc_time" "0 \<le> Year sample_utc_time" "Year sample_utc_time \<le> 9999"
    "ZoneOffset sample_utc_time = 0"
    by (simp_all add: sample_utc_time_def valid_time_def daysIn_def)
  have n0: "sample_utc_time \<lparr> Nanosecond := 0 \<rparr> = sample_utc_time"
    by (simp add: sample_utc_time_def)
  from CustomTime_roundtrip_utc[OF h, of "\<lparr> CtTime = zero_time \<rparr>"]
  have a: "UnmarshalJSON \<lparr> CtTime = zero_time \<rparr> (fst (MarshalJSON \<lparr> CtTime = sample_utc_time \<rparr>))
       = (\<lparr> CtTime = sample_utc_time \<rparr>, None)"
    by (simp add: n0)
  from CustomTime_roundtrip_utc[OF h, of "\<lparr> CtTime = sample_utc_time \<rparr>"]
  have b: "UnmarshalJSON \<lparr> CtTime = sample_utc_time \<rparr> ''null'' = (\<lparr> CtTime = zero_time \<rparr>, None)"
    by simp
  from h a b show ?thesis by blast
qed

subsection \<open>Auxiliary facts on binary64 rounding\<close>

lemma bit_length_bounds:
  "0 < n \<Longrightarrow> 2 ^ (bit_length n - 1) \<le> n \<and> n < 2 ^ bit_length n"
proof (induction n rule: bit_length.induct)
  case (1 n)
  show ?case
  proof (cases "n div 2 = 0")
    case True
    with "1.prems" have "n = 1" by (simp add: div_eq_0_iff)
    then show ?thesis by (simp add: bit_length.simps)
  next
    case False
    then have pos: "0 < n div 2" by simp
    from "1.IH"[OF _ pos] "1.prems"
    have ih: "2 ^ (bit_length (n div 2) - 1) \<le> n div 2" "n div 2 < 2 ^ bit_length (n div 2)" by auto
    have bl: "bit_length n = Suc (bit_length (n div 2))"
      using "1.prems" by (subst bit_length.simps) simp
    have b1: "0 < bit_length (n div 2)"
      using pos by (subst bit_length.simps) simp
    then have "(2::nat) ^ bit_length (n div 2) = 2 * 2 ^ (bit_length (n div 2) - 1)"
      by (cases "bit_length (n div 2)") simp_all
    with ih(1) have "2 ^ bit_length (n div 2) \<le> 2 * (n div 2)" by simp
    also have "\<dots> \<le> n" by simp
    finally have lo: "2 ^ (bit_length n - 1) \<le> n" by (simp add: bl)
    have "n < 2 * (n div 2) + 2" by arith
    also have "\<dots> \<le> 2 * 2 ^ bit_length (n div 2)" using ih(2) by simp
    finally have "n < 2 ^ bit_length n" by (simp add: bl)
    with lo show ?thesis by simp
  qed
qed

lemma bit_length_pos: "0 < n \<Longrightarrow> 0 < bit_length n"
  by (subst bit_length.simps) simp

lemma floor_sandwich:
  fixes x :: rat
  shows "of_int \<lfloor>x\<rfloor> \<le> x" "x < of_int \<lfloor>x\<rfloor> + 1"
proof -
  show "of_int \<lfloor>x\<rfloor> \<le> x" by (rule of_int_floor_le)
  have "x < of_int (\<lfloor>x\<rfloor> + 1)" using floor_correct[of x] by blast
  then show "x < of_int \<lfloor>x\<rfloor> + 1" by (simp only: of_int_add of_int_1)
qed

lemma ceiling_sandwich:
  fixes y :: rat
  shows "of_int \<lceil>y\<rceil> - 1 < y" "y \<le> of_int \<lceil>y\<rceil>"
proof -
  show "y \<le> of_int \<lceil>y\<rceil>" by (rule le_of_int_ceiling)
  have "of_int (\<lceil>y\<rceil> - 1) < y" using ceiling_correct[of y] by (simp only: of_int_diff of_int_1)
  then show "of_int \<lceil>y\<rceil> - 1 < y" by (simp only: of_int_diff of_int_1)
qed

lemma nat_pow2_rat:
  fixes n L :: nat
  shows "2 ^ L \<le> n \<Longrightarrow> (2::rat) ^ L \<le> of_nat n"
    and "n < 2 ^ L \<Longrightarrow> (of_nat n :: rat) + 1 \<le> 2 ^ L"
proof -
  assume "2 ^ L \<le> n"
  then have "(of_nat (2 ^ L) :: rat) \<le> of_nat n" by (simp only: of_nat_le_iff)
  then show "(2::rat) ^ L \<le> of_nat n" by (simp only: of_nat_power of_nat_numeral)
next
  assume "n < 2 ^ L"
  then have "Suc n \<le> 2 ^ L" by simp
  then have "(of_nat (Suc n) :: rat) \<le> of_nat (2 ^ L)" by (simp only: of_nat_le_iff)
  then show "(of_nat n :: rat) + 1 \<le> 2 ^ L" by (simp only: of_nat_power of_nat_numeral of_nat_Suc add.commute)
qed

lemma binexp_bounds_ge1:
  assumes "1 \<le> x"
  shows "2 powi (binexp x) \<le> x \<and> x < 2 powi (binexp x + 1)"
proof -
  define f where "f = \<lfloor>x\<rfloor>"
  define n where "n = nat f"
  have f1: "1 \<le> f" unfolding f_def using assms by (simp add: le_floor_iff)
  have fn: "of_int f = (of_nat n :: rat)" "0 < n" using f1 by (simp_all add: n_def)
  have sx: "of_nat n \<le> x" "x < of_nat n + 1"
    using floor_sandwich[of x] unfolding f_def[symmetric] fn(1) by blast+
  define L where "L = bit_length n"
  from bit_length_bounds[OF fn(2)] bit_length_pos[OF fn(2)]
  have b: "2 ^ (L - 1) \<le> n" "n < 2 ^ L" "0 < L" by (auto simp: L_def)
  have e: "binexp x = int L - 1"
    unfolding binexp_def L_def n_def f_def using assms by simp
  have e1: "int L - 1 = int (L - 1)" "int L - 1 + 1 = int L" using b(3) by simp_all
  have p1: "(2::rat) powi (binexp x) = 2 ^ (L - 1)"
    unfolding e e1(1) by (rule power_int_of_nat)
  have p2: "(2::rat) powi (binexp x + 1) = 2 ^ L"
    unfolding e e1(2) by (rule power_int_of_nat)
  from nat_pow2_rat(1)[OF b(1)] sx(1) have "(2::rat) ^ (L - 1) \<le> x" by linarith
  moreover from nat_pow2_rat(2)[OF b(2)] sx(2) have "x < 2 ^ L" by linarith
  ultimately show ?thesis unfolding p1 p2 by blast
qed

lemma binexp_bounds_lt1:
  assumes "0 < x" "\<not> 1 \<le> x"
  shows "2 powi (binexp x) \<le> x \<and> x < 2 powi (binexp x + 1)"
proof -
  define y where "y = 1 / x"
  have y: "1 < y" "0 < y" using assms by (simp_all add: y_def)
  have xy: "x = 1 / y" using assms by (simp add: y_def)
  define c where "c = \<lceil>y\<rceil>"
  define n where "n = nat (c - 1)"
  have c2: "2 \<le> c" unfolding c_def using y(1) by (simp add: le_ceiling_iff)
  have cn: "of_int c - 1 = (of_nat n :: rat)" "0 < n" using c2 by (simp_all add: n_def)
  have sy: "of_nat n < y" "y \<le> of_nat n + 1"
    using ceiling_sandwich[of y] unfolding c_def[symmetric] cn(1)[symmetric] by simp_all
  define L where "L = bit_length n"
  from bit_length_bounds[OF cn(2)] bit_length_pos[OF cn(2)]
  have b: "2 ^ (L - 1) \<le> n" "n < 2 ^ L" "0 < L" by (auto simp: L_def)
  have e: "binexp x = - int L"
    unfolding binexp_def L_def n_def c_def y_def using assms by simp
  have e1: "- int L + 1 = - int (L - 1)" using b(3) by simp
  have p1: "(2::rat) powi (binexp x) = 1 / 2 ^ L"
    unfolding e by (simp only: power_int_minus_divide power_int_of_nat)
  have p2: "(2::rat) powi (binexp x + 1) = 1 / 2 ^ (L - 1)"
    unfolding e e1 by (simp only: power_int_minus_divide power_int_of_nat)
  from nat_pow2_rat(2)[OF b(2)] sy(2) have "y \<le> 2 ^ L" by linarith
  then have lo: "1 / 2 ^ L \<le> 1 / y" using y(2) by (intro divide_left_mono) simp_all
  from nat_pow2_rat(1)[OF b(1)] sy(1) have "(2::rat) ^ (L - 1) < y" by linarith
  moreover have "0 < y * 2 ^ (L - 1)" using y(2) by simp
  ultimately have hi: "1 / y < 1 / 2 ^ (L - 1)" by (intro divide_strict_left_mono) simp_all
  from lo hi xy have "1 / 2 ^ L \<le> x" "x < 1 / 2 ^ (L - 1)" by simp_all
  then show ?thesis unfolding p1 p2 by blast
qed

lemma binexp_bounds:
  assumes "0 < x"
  shows "2 powi (binexp x) \<le> x" and "x < 2 powi (binexp x + 1)"
  using binexp_bounds_ge1[of x] binexp_bounds_lt1[of x] assms by blast+

lemma binexp_mono:
  assumes "0 < x" "x \<le> y"
  shows "binexp x \<le> binexp y"
proof (rule ccontr)
  assume "\<not> binexp x \<le> binexp y"
  then have "binexp y + 1 \<le> binexp x" by simp
  then have "(2::rat) powi (binexp y + 1) \<le> 2 powi (binexp x)"
    by (intro power_int_increasing) simp_all
  also have "\<dots> \<le> x" using binexp_bounds(1)[OF assms(1)] .
  finally have "2 powi (binexp y + 1) \<le> y" using assms(2) by simp
  moreover have "y < 2 powi (binexp y + 1)" using binexp_bounds(2)[of y] assms by simp
  ultimately show False by simp
qed

lemma rne_of_int [simp]: "rne (of_int k) = k"
  by (simp add: rne_def)

lemma rne_floor_bounds: "\<lfloor>x\<rfloor> \<le> rne x" "rne x \<le> \<lfloor>x\<rfloor> + 1"
  by (simp_all add: rne_def Let_def)

lemma rne_mono:
  assumes "x \<le> y"
  shows "rne x \<le> rne y"
proof (cases "\<lfloor>x\<rfloor> = \<lfloor>y\<rfloor>")
  case True
  with assms have "x - of_int \<lfloor>x\<rfloor> \<le> y - of_int \<lfloor>y\<rfloor>" by simp
  with True show ?thesis by (auto simp: rne_def Let_def)
next
  case False
  with assms have "\<lfloor>x\<rfloor> + 1 \<le> \<lfloor>y\<rfloor>" using floor_mono[OF assms] by linarith
  with rne_floor_bounds(2)[of x] rne_floor_bounds(1)[of y] show ?thesis by linarith
qed

lemma f64_pos:
  "0 < x \<Longrightarrow> f64 x = of_int (rne (x / 2 powi (binexp x - 52))) * 2 powi (binexp x - 52)"
  by (simp add: f64_def Let_def)

lemma scaled_bounds:
  assumes "0 < x"
  shows "2 ^ 52 \<le> x / 2 powi (binexp x - 52)" "x / 2 powi (binexp x - 52) < 2 ^ 53"
proof -
  define p :: rat where "p = 2 powi (binexp x)"
  have p: "0 < p" by (simp add: p_def)
  have lo: "p \<le> x" using binexp_bounds(1)[OF assms] by (simp add: p_def)
  have "(2::rat) powi (binexp x + 1) = p * 2" by (simp add: p_def power_int_add)
  then have hi: "x < p * 2" using binexp_bounds(2)[OF assms] by simp
  have q: "(2::rat) powi (binexp x - 52) = p / 2 ^ 52"
    by (simp add: p_def power_int_diff)
  have eq: "x / (p / 2 ^ 52) = 2 ^ 52 * (x / p)" by simp
  have "1 \<le> x / p" using lo p by (simp add: pos_le_divide_eq)
  then show "2 ^ 52 \<le> x / 2 powi (binexp x - 52)" unfolding q eq by simp
  have "x / p < 2" using hi p by (simp add: pos_divide_less_eq)
  then show "x / 2 powi (binexp x - 52) < 2 ^ 53" unfolding q eq by simp
qed

lemma f64_exact:
  assumes "0 < m" "m < 2 ^ 53"
  shows "f64 (of_int m * 2 powi k) = of_int m * 2 powi k"
proof -
  define x :: rat where "x = of_int m * 2 powi k"
  have x: "0 < x" using assms(1) by (simp add: x_def)
  define e where "e = binexp x"
  have "2 powi e \<le> x" using binexp_bounds(1)[OF x] by (simp add: e_def)
  also have "x < 2 ^ 53 * 2 powi k"
  proof -
    have "(of_int m :: rat) < of_int (2 ^ 53)" using assms(2) by (simp only: of_int_less_iff)
    then have "(of_int m :: rat) < 2 ^ 53" by simp
    then show ?thesis unfolding x_def by (intro mult_strict_right_mono) simp_all
  qed
  also have "\<dots> = 2 powi (53 + k)" by (simp add: power_int_add)
  finally have lt: "(2::rat) powi e < 2 powi (53 + k)" .
  have "e < 53 + k"
  proof (rule ccontr)
    assume "\<not> e < 53 + k"
    then have "(2::rat) powi (53 + k) \<le> 2 powi e" by (intro power_int_increasing) simp_all
    with lt show False by simp
  qed
  then have j: "0 \<le> k - e + 52" by simp
  define j where "j = nat (k - e + 52)"
  have "x / 2 powi (e - 52) = of_int m * (2 powi k / 2 powi (e - 52))" by (simp add: x_def)
  also have "2 powi k / 2 powi (e - 52) = (2::rat) powi (k - (e - 52))"
    by (simp add: power_int_diff)
  also have "k - (e - 52) = int j" using j by (simp add: j_def)
  finally have "x / 2 powi (e - 52) = of_int (m * 2 ^ j)" by simp
  then have "rne (x / 2 powi (e - 52)) = m * 2 ^ j" by (simp only: rne_of_int)
  then have "f64 x = of_int (m * 2 ^ j) * 2 powi (e - 52)"
    using x by (simp add: f64_pos e_def)
  also have "\<dots> = of_int m * (2 powi (int j) * 2 powi (e - 52))" by simp
  also have "2 powi (int j) * 2 powi (e - 52) = (2::rat) powi (int j + (e - 52))"
    by (simp add: power_int_add)
  also have "int j + (e - 52) = k" using j by (simp add: j_def)
  finally show ?thesis by (simp add: x_def)
qed

lemma f64_mono_pos:
  assumes "0 < x" "x \<le> y"
  shows "f64 x \<le> f64 y"
proof -
  have y: "0 < y" using assms by simp
  let ?qx = "(2::rat) powi (binexp x - 52)" and ?qy = "(2::rat) powi (binexp y - 52)"
  have qpos: "0 < ?qx" "0 < ?qy" by simp_all
  show ?thesis
  proof (cases "binexp x = binexp y")
    case True
    have "x / ?qx \<le> y / ?qx" using assms(2) qpos(1) by (simp add: divide_right_mono)
    then have "rne (x / ?qx) \<le> rne (y / ?qx)" by (rule rne_mono)
    then have "(of_int (rne (x / ?qx)) :: rat) * ?qx \<le> of_int (rne (y / ?qx)) * ?qx"
      using qpos(1) by (intro mult_right_mono) simp_all
    then show ?thesis using assms(1) y True by (simp add: f64_pos)
  next
    case False
    with binexp_mono[OF assms] have lt: "binexp x + 1 \<le> binexp y" by simp
    have "x / ?qx \<le> of_int (2 ^ 53)" using scaled_bounds(2)[OF assms(1)] by simp
    then have "rne (x / ?qx) \<le> rne (of_int (2 ^ 53))" by (rule rne_mono)
    then have "rne (x / ?qx) \<le> 2 ^ 53" by (simp only: rne_of_int)
    then have "(of_int (rne (x / ?qx)) :: rat) \<le> of_int (2 ^ 53)"
      by (simp only: of_int_le_iff)
    then have "(of_int (rne (x / ?qx)) :: rat) \<le> 2 ^ 53" by simp
    then have "f64 x \<le> 2 ^ 53 * ?qx"
      using assms(1) qpos(1) by (simp add: f64_pos mult_right_mono)
    also have "\<dots> = 2 powi (binexp x + 1)"
      by (simp add: power_int_diff power_int_add)
    also have "\<dots> \<le> 2 powi (binexp y)" using lt by (intro power_int_increasing) simp_all
    also have "\<dots> = 2 ^ 52 * ?qy" by (simp add: power_int_diff)
    also have "\<dots> \<le> f64 y"
    proof -
      have "of_int (2 ^ 52) \<le> y / ?qy" using scaled_bounds(1)[OF y] by simp
      then have "rne (of_int (2 ^ 52)) \<le> rne (y / ?qy)" by (rule rne_mono)
      then have "2 ^ 52 \<le> rne (y / ?qy)" by (simp only: rne_of_int)
      then have "(of_int (2 ^ 52) :: rat) \<le> of_int (rne (y / ?qy))"
        by (simp only: of_int_le_iff)
      then have "(2 ^ 52 :: rat) \<le> of_int (rne (y / ?qy))" by simp
      then show ?thesis using y qpos(2) by (simp add: f64_pos mult_right_mono)
    qed
    finally show ?thesis .
  qed
qed


lemma sint_word_of_int_64:
  assumes "- (2 ^ 63) \<le> k" "k < 2 ^ 63"
  shows "sint (word_of_int k :: go_int) = k"
  using assms by (simp add: signed_of_int signed_take_bit_int_eq_self)

lemma f64_zero [simp]: "f64 0 = 0"
  by (simp add: f64_def)

lemma f64_of_int:
  assumes "0 \<le> m" "m < 2 ^ 53"
  shows "f64 (of_int m * 2 powi k) = of_int m * 2 powi k"
proof (cases "m = 0")
  case True
  then show ?thesis by simp
next
  case False
  with assms show ?thesis by (intro f64_exact) simp_all
qed

lemma f64_of_int0:
  assumes "0 \<le> m" "m < 2 ^ 53"
  shows "f64 (of_int m) = of_int m"
  using f64_of_int[OF assms, of 0] by simp

lemma f64_mono_nonneg:
  assumes "0 \<le> x" "x \<le> y"
  shows "f64 x \<le> f64 y"
proof (cases "x = 0")
  case False
  with assms show ?thesis by (intro f64_mono_pos) simp_all
next
  case True
  show ?thesis
  proof (cases "y = 0")
    case True
    with \<open>x = 0\<close> show ?thesis by simp
  next
    case False
    with assms have y: "0 < y" by simp
    have "0 \<le> rne (y / 2 powi (binexp y - 52))"
      using rne_mono[of "of_int 0" "y / 2 powi (binexp y - 52)"] y
      by (simp del: rne_of_int add: rne_of_int[of 0, simplified])
    with y True show ?thesis by (simp add: f64_pos)
  qed
qed

lemma to_duration_nonneg:
  assumes "0 \<le> r" "r < 2 ^ 63"
  shows "to_duration r = Some (word_of_int \<lfloor>r\<rfloor>)" "sint (word_of_int \<lfloor>r\<rfloor> :: go_int) = \<lfloor>r\<rfloor>"
proof -
  have a: "0 \<le> \<lfloor>r\<rfloor>" using assms(1) by simp
  have "\<lfloor>r\<rfloor> < 2 ^ 63" using assms(2) by (simp add: floor_less_iff)
  with a show "to_duration r = Some (word_of_int \<lfloor>r\<rfloor>)" using assms(1)
    by (simp add: to_duration_def)
  from a \<open>\<lfloor>r\<rfloor> < 2 ^ 63\<close> show "sint (word_of_int \<lfloor>r\<rfloor> :: go_int) = \<lfloor>r\<rfloor>"
    by (intro sint_word_of_int_64) simp_all
qed

lemma jitter_bounds:
  assumes d: "0 \<le> d" "d < 2 ^ 51" and U: "0 \<le> U" "U < 1"
  defines "r \<equiv> f64 (f64 (f64 (of_int d) * f64 (1 / 2 + U)) * (1 / 2))"
  shows "of_int d / 4 \<le> r" "r \<le> 3 * of_int d / 4"
proof -
  have d53: "d < 2 ^ 53" "3 * d < 2 ^ 53" "0 \<le> 3 * d" using d by simp_all
  have fd: "f64 (of_int d) = of_int d" using f64_of_int0[OF d(1) d53(1)] .
  have h: "f64 (1 / 2) = 1 / 2" using f64_of_int[of 1 "-1"] by simp
  have t: "f64 (3 / 2) = 3 / 2" using f64_of_int[of 3 "-1"] by simp
  define s where "s = f64 (1 / 2 + U)"
  have s: "1 / 2 \<le> s" "s \<le> 3 / 2"
    using f64_mono_nonneg[of "1 / 2" "1 / 2 + U"] f64_mono_nonneg[of "1 / 2 + U" "3 / 2"] U
    by (simp_all add: s_def h t)
  define p where "p = f64 (of_int d * s)"
  have dr: "(0::rat) \<le> of_int d" using d(1) by simp
  have e1: "f64 (of_int d * (1 / 2)) = of_int d * (1 / 2)"
    using f64_of_int[OF d(1) d53(1), of "-1"] by simp
  have c2: "(of_int (3 * d) :: rat) * 2 powi (- 1) = of_int d * (3 / 2)" by simp
  have e2: "f64 (of_int d * (3 / 2)) = of_int d * (3 / 2)"
    using f64_of_int[OF d53(3,2), of "- 1"] unfolding c2 .
  have le1: "of_int d * (1 / 2) \<le> of_int d * s" using s(1) dr by (intro mult_left_mono) simp_all
  have le2: "of_int d * s \<le> of_int d * (3 / 2)" using s(2) dr by (intro mult_left_mono) simp_all
  have nn1: "0 \<le> of_int d * (1 / 2 :: rat)" using dr by simp
  have nn2: "0 \<le> of_int d * s" using s(1) dr by simp
  have p1: "of_int d * (1 / 2) \<le> p" using f64_mono_nonneg[OF nn1 le1] unfolding e1 p_def .
  have p2: "p \<le> of_int d * (3 / 2)" using f64_mono_nonneg[OF nn2 le2] unfolding e2 p_def .
  have e3: "f64 (of_int d * (1 / 4)) = of_int d * (1 / 4)"
    using f64_of_int[OF d(1) d53(1), of "- 2"] by simp
  have c4: "(of_int (3 * d) :: rat) * 2 powi (- 2) = of_int d * (3 / 4)" by simp
  have e4: "f64 (of_int d * (3 / 4)) = of_int d * (3 / 4)"
    using f64_of_int[OF d53(3,2), of "- 2"] unfolding c4 .
  have r: "r = f64 (p * (1 / 2))" unfolding r_def p_def s_def fd ..
  have le3: "of_int d * (1 / 4) \<le> p * (1 / 2)" using p1 by simp
  have le4: "p * (1 / 2) \<le> of_int d * (3 / 4)" using p2 by simp
  have nn3: "0 \<le> of_int d * (1 / 4 :: rat)" using dr by simp
  have nn4: "0 \<le> p * (1 / 2)" using p1 dr by simp
  have "of_int d * (1 / 4) \<le> r" using f64_mono_nonneg[OF nn3 le3] unfolding e3 r .
  then show "of_int d / 4 \<le> r" by simp
  have "r \<le> of_int d * (3 / 4)" using f64_mono_nonneg[OF nn4 le4] unfolding e4 r .
  then show "r \<le> 3 * of_int d / 4" by simp
qed


subsection \<open>The jittered delay\<close>

text \<open>
  C2, as stated, fails: the factor \<open>(0.5 + U) \<cdot> 0.5\<close> ranges over \<open>[0.25, 0.75)\<close>, not
  \<open>[0.25, 0.5)\<close>. With the default configuration, attempt 0 and \<open>U = 0.75\<close> the base is
  100 ms and the delay is 62.5 ms, not below 50 ms. (Every float64 operation is exact at
  this input.)
\<close>

theorem calculateDelay_half_base_counterexample:
  "calculateDelay DefaultRetryConfig 0 (3 / 4) = Some 62500000
   \<and> nominal_base DefaultRetryConfig 0 = 100000000
   \<and> \<not> (2 * sint (62500000 :: go_int) < 100000000)"
proof -
  have a: "f64 100000000 = 100000000" using f64_of_int0[of 100000000] by simp
  have b: "f64 (5 / 4) = 5 / 4" using f64_of_int[of 5 "- 2"] by simp
  have c: "f64 125000000 = 125000000" using f64_of_int0[of 125000000] by simp
  have d: "f64 62500000 = 62500000" using f64_of_int0[of 62500000] by simp
  have t: "to_duration 100000000 = Some 100000000" "to_duration 62500000 = Some 62500000"
    by (simp_all add: to_duration_def)
  have "calculateDelay DefaultRetryConfig 0 (3 / 4) = Some 62500000"
    by (simp add: calculateDelay_def DefaultRetryConfig_def a b c d t word_sless_alt)
  moreover have "nominal_base DefaultRetryConfig 0 = 100000000"
    by (simp add: nominal_base_def DefaultRetryConfig_def)
  ultimately show ?thesis by simp
qed

text \<open>
  C2, amended. Let the attempt \<open>n\<close> be between 0 and 1023, \<open>BaseDelay\<close> and \<open>MaxDelay\<close>
  be non-negative, \<open>BaseDelay\<close> be below \<open>2\<^sup>5\<^sup>3\<close> ns with \<open>BaseDelay \<cdot> 2\<^sup>n\<close> below \<open>2\<^sup>6\<^sup>3\<close>,
  and \<open>base = min(BaseDelay \<cdot> 2\<^sup>n, MaxDelay)\<close> be below \<open>2\<^sup>5\<^sup>1\<close> ns. Then for every drawn
  \<open>U\<close> in \<open>[0, 1)\<close>, \<open>calculateDelay(n)\<close> returns a delay \<open>d\<close> of whole nanoseconds with
  \<open>\<lfloor>0.25 \<cdot> base\<rfloor> \<le> d \<le> 0.75 \<cdot> base\<close>.
\<close>

theorem calculateDelay_within_quarter_and_three_quarters:
  assumes n: "0 \<le>s attempt" "sint attempt \<le> 1023"
    and B: "0 \<le>s BaseDelay rc" "sint (BaseDelay rc) < 2 ^ 53"
    and M: "0 \<le>s MaxDelay rc"
    and fit: "sint (BaseDelay rc) * 2 ^ nat (sint attempt) < 2 ^ 63"
    and small: "nominal_base rc attempt < 2 ^ 51"
    and U: "0 \<le> U" "U < 1"
  shows "\<exists>j. calculateDelay rc attempt U = Some j
           \<and> nominal_base rc attempt div 4 \<le> sint j
           \<and> 4 * sint j \<le> 3 * nominal_base rc attempt"
proof -
  define Bd where "Bd = sint (BaseDelay rc)"
  define k where "k = nat (sint attempt)"
  define d where "d = nominal_base rc attempt"
  have n0: "0 \<le> sint attempt" using n(1) by (simp add: word_sle_eq)
  have B0: "0 \<le> Bd" using B(1) by (simp add: word_sle_eq Bd_def)
  have M0: "0 \<le> sint (MaxDelay rc)" using M by (simp add: word_sle_eq)
  have pw: "(2::rat) powi (sint attempt) = 2 powi (int k)" using n0 by (simp add: k_def)
  have f1: "f64 (of_int Bd) = of_int Bd" using f64_of_int0[OF B0] B(2) by (simp add: Bd_def)
  have f2: "f64 (of_int Bd * 2 powi (int k)) = of_int Bd * 2 powi (int k)"
    using f64_of_int[OF B0, of "int k"] B(2) by (simp add: Bd_def)
  have pr: "(of_int Bd :: rat) * 2 powi (int k) = of_int (Bd * 2 ^ k)" by simp
  have nn: "0 \<le> Bd * 2 ^ k" using B0 by simp
  have lt: "Bd * 2 ^ k < 2 ^ 63" using fit by (simp add: Bd_def k_def)
  have r0: "(0::rat) \<le> of_int (Bd * 2 ^ k)" "(of_int (Bd * 2 ^ k) :: rat) < 2 ^ 63"
  proof -
    show "(0::rat) \<le> of_int (Bd * 2 ^ k)" using nn by (simp only: of_int_0_le_iff)
    have "(of_int (Bd * 2 ^ k) :: rat) < of_int (2 ^ 63)" using lt by (simp only: of_int_less_iff)
    then show "(of_int (Bd * 2 ^ k) :: rat) < 2 ^ 63" by simp
  qed
  define d0 :: go_int where "d0 = word_of_int (Bd * 2 ^ k)"
  have fl: "\<lfloor>(of_int (Bd * 2 ^ k) :: rat)\<rfloor> = Bd * 2 ^ k" by (rule floor_of_int)
  note tdn = to_duration_nonneg[OF r0, unfolded fl, folded d0_def]
  have td: "to_duration (of_int (Bd * 2 ^ k)) = Some d0" "sint d0 = Bd * 2 ^ k"
    by (rule tdn(1), rule tdn(2))
  have arg: "f64 (f64 (of_int (sint (BaseDelay rc))) * 2 powi (sint attempt)) = of_int (Bd * 2 ^ k)"
    unfolding Bd_def[symmetric] f1 pw pr f2[unfolded pr] ..
  define delay where "delay = (if MaxDelay rc <s d0 then MaxDelay rc else d0)"
  have sd: "sint delay = d"
    by (auto simp: delay_def d_def nominal_base_def word_sless_alt td(2) Bd_def k_def min_def)
  have d0': "0 \<le> d" using nn M0 by (simp add: d_def nominal_base_def Bd_def k_def)
  have dlt: "d < 2 ^ 51" using small by (simp add: d_def)
  define r where "r = f64 (f64 (f64 (of_int d) * f64 (1 / 2 + U)) * (1 / 2))"
  from jitter_bounds[OF d0' dlt U] have rb: "of_int d / 4 \<le> r" "r \<le> 3 * of_int d / 4"
    by (simp_all add: r_def)
  have dr: "(0::rat) \<le> of_int d" "(of_int d :: rat) < 2 ^ 51"
  proof -
    show "(0::rat) \<le> of_int d" using d0' by (simp only: of_int_0_le_iff)
    have "(of_int d :: rat) < of_int (2 ^ 51)" using dlt by (simp only: of_int_less_iff)
    then show "(of_int d :: rat) < 2 ^ 51" by simp
  qed
  have c: "(2::rat) ^ 51 \<le> 2 ^ 63" "0 < (2::rat) ^ 51" by simp_all
  have rr: "0 \<le> r" "r < 2 ^ 63" using rb dr c by linarith+
  have "calculateDelay rc attempt U
          = to_duration (f64 (f64 (f64 (of_int (sint delay)) * f64 (1 / 2 + U)) * (1 / 2)))"
    unfolding calculateDelay_def arg td(1) delay_def using n(2) by (simp add: Let_def)
  then have cd: "calculateDelay rc attempt U = to_duration r" unfolding sd r_def .
  define j :: go_int where "j = word_of_int \<lfloor>r\<rfloor>"
  have j: "calculateDelay rc attempt U = Some j" "sint j = \<lfloor>r\<rfloor>"
    using to_duration_nonneg[OF rr] cd by (simp_all add: j_def)
  have "of_int (d div 4) \<le> (of_int d :: rat) / 4"
    by (metis floor_divide_of_int_eq of_int_floor_le of_int_numeral)
  with rb(1) have "of_int (d div 4) \<le> r" by linarith
  then have lo: "d div 4 \<le> \<lfloor>r\<rfloor>" by (simp add: le_floor_iff)
  have "of_int \<lfloor>r\<rfloor> \<le> r" by (rule of_int_floor_le)
  with rb(2) have "4 * (of_int \<lfloor>r\<rfloor> :: rat) \<le> 3 * of_int d" by linarith
  then have "(of_int (4 * \<lfloor>r\<rfloor>) :: rat) \<le> of_int (3 * d)" by simp
  then have hi: "4 * \<lfloor>r\<rfloor> \<le> 3 * d" by (simp only: of_int_le_iff)
  from j lo hi show ?thesis by (auto simp: d_def)
qed

theorem calculateDelay_within_quarter_and_three_quarters_witness:
  "(0 :: go_int) \<le>s 1 \<and> sint (1 :: go_int) \<le> 1023
   \<and> 0 \<le>s BaseDelay DefaultRetryConfig \<and> sint (BaseDelay DefaultRetryConfig) < 2 ^ 53
   \<and> 0 \<le>s MaxDelay DefaultRetryConfig
   \<and> sint (BaseDelay DefaultRetryConfig) * 2 ^ nat (sint (1 :: go_int)) < 2 ^ 63
   \<and> nominal_base DefaultRetryConfig 1 = 200000000
   \<and> calculateDelay DefaultRetryConfig 1 (1 / 4) = Some 75000000
   \<and> nominal_base DefaultRetryConfig 1 div 4 \<le> sint (75000000 :: go_int)
   \<and> 4 * sint (75000000 :: go_int) \<le> 3 * nominal_base DefaultRetryConfig 1"
proof -
  have h: "(0 :: go_int) \<le>s 1" "sint (1 :: go_int) \<le> 1023"
    "0 \<le>s BaseDelay DefaultRetryConfig" "sint (BaseDelay DefaultRetryConfig) < 2 ^ 53"
    "0 \<le>s MaxDelay DefaultRetryConfig"
    "sint (BaseDelay DefaultRetryConfig) * 2 ^ nat (sint (1 :: go_int)) < 2 ^ 63"
    by (simp_all add: DefaultRetryConfig_def word_sle_eq)
  have nb: "nominal_base DefaultRetryConfig 1 = 200000000"
    by (simp add: nominal_base_def DefaultRetryConfig_def)
  have sm: "nominal_base DefaultRetryConfig 1 < 2 ^ 51" by (simp add: nb)
  have a: "f64 100000000 = 100000000" using f64_of_int0[of 100000000] by simp
  have a2: "f64 200000000 = 200000000" using f64_of_int0[of 200000000] by simp
  have b: "f64 (3 / 4) = 3 / 4" using f64_of_int[of 3 "- 2"] by simp
  have c: "f64 150000000 = 150000000" using f64_of_int0[of 150000000] by simp
  have d: "f64 75000000 = 75000000" using f64_of_int0[of 75000000] by simp
  have t: "to_duration 200000000 = Some 200000000" "to_duration 75000000 = Some 75000000"
    by (simp_all add: to_duration_def)
  have cd: "calculateDelay DefaultRetryConfig 1 (1 / 4) = Some 75000000"
    by (simp add: calculateDelay_def DefaultRetryConfig_def a a2 b c d t word_sless_alt)
  from calculateDelay_within_quarter_and_three_quarters[OF h sm, of "1 / 4"] cd
  have "nominal_base DefaultRetryConfig 1 div 4 \<le> sint (75000000 :: go_int)"
       "4 * sint (75000000 :: go_int) \<le> 3 * nominal_base DefaultRetryConfig 1"
    by auto
  with h nb cd show ?thesis by blast
qed

end
